theory Spec2Isabelle
  imports Main "HOL-Library.Sublist"
begin

section \<open>JavaScript strings and the string operations the scripts use\<close>

text \<open>
  A JavaScript string is a sequence of UTF-16 code units; a code unit is modelled as a
  natural number. \<open>str\<close> turns an ASCII literal into its code units; characters beyond
  ASCII (the emoji and the typographic apostrophe of the comment templates) are written
  as their code units.
\<close>

type_synonym jsstring = "nat list"

definition str :: "string \<Rightarrow> jsstring" where
  "str s = map of_char s"

text \<open>\<^verbatim>\<open>s.includes(pat)\<close>: \<open>pat\<close> occurs in \<open>s\<close> as a contiguous run of code units.\<close>

fun str_includes :: "jsstring \<Rightarrow> jsstring \<Rightarrow> bool" where
  "str_includes [] pat = (pat = [])"
| "str_includes (c # s) pat = (prefix pat (c # s) \<or> str_includes s pat)"

text \<open>\<^verbatim>\<open>s.endsWith(suf)\<close>.\<close>

definition endsWith :: "jsstring \<Rightarrow> jsstring \<Rightarrow> bool" where
  "endsWith s suf = suffix suf s"

text \<open>\<^verbatim>\<open>lines.join('\n')\<close>.\<close>

fun join_lines :: "jsstring list \<Rightarrow> jsstring" where
  "join_lines [] = []"
| "join_lines [l] = l"
| "join_lines (l # m # ls) = l @ [10] @ join_lines (m # ls)"

text \<open>Truthiness of an optional number and of an optional string (\<open>None\<close> is
  \<^verbatim>\<open>undefined\<close>/\<^verbatim>\<open>null\<close>/\<^verbatim>\<open>NaN\<close>; \<^verbatim>\<open>0\<close> and \<^verbatim>\<open>""\<close> are falsy).\<close>

fun truthy_num :: "nat option \<Rightarrow> bool" where
  "truthy_num None = False"
| "truthy_num (Some n) = (n \<noteq> 0)"

fun truthy_str :: "jsstring option \<Rightarrow> bool" where
  "truthy_str None = False"
| "truthy_str (Some s) = (s \<noteq> [])"

text \<open>Decimal rendering of a number inside a template literal, for numbers below
  \<open>10\<^sup>2\<^sup>1\<close> (from there on JavaScript uses exponent notation).\<close>

function show_nat :: "nat \<Rightarrow> jsstring" where
  "show_nat n = (if n < 10 then [48 + n] else show_nat (n div 10) @ [48 + n mod 10])"
  by pat_completeness auto
termination
  by (relation "measure id") auto

declare show_nat.simps [simp del]

definition show_bool :: "bool \<Rightarrow> jsstring" where
  "show_bool b = (if b then str ''true'' else str ''false'')"

section \<open>Regular expressions\<close>

text \<open>
  The two scripts use three regular-expression literals, all without the \<^verbatim>\<open>g\<close>,
  \<^verbatim>\<open>m\<close> and \<^verbatim>\<open>u\<close> flags and all with \<^verbatim>\<open>i\<close>. The fragment of the regular
  expression language they need is embedded as a datatype, with a matcher that returns
  every position at which a match of the expression starting at a given position can
  end. A position is the code unit before it (\<open>None\<close> at the start of the input) and
  the input that remains.
\<close>

definition is_digit :: "nat \<Rightarrow> bool" where
  "is_digit c \<longleftrightarrow> 48 \<le> c \<and> c \<le> 57"

definition is_word :: "nat \<Rightarrow> bool" where
  "is_word c \<longleftrightarrow> (65 \<le> c \<and> c \<le> 90) \<or> (97 \<le> c \<and> c \<le> 122) \<or> is_digit c \<or> c = 95"

text \<open>\<^verbatim>\<open>\s\<close>: the WhiteSpace and LineTerminator code units of ECMAScript.\<close>

definition is_space :: "nat \<Rightarrow> bool" where
  "is_space c \<longleftrightarrow>
     c \<in> {9, 10, 11, 12, 13, 32, 160, 0x1680, 0x2028, 0x2029, 0x202F, 0x205F, 0x3000, 0xFEFF}
     \<or> (0x2000 \<le> c \<and> c \<le> 0x200A)"

text \<open>
  Case-insensitive comparison with an ASCII pattern character. Without the \<^verbatim>\<open>u\<close>
  flag a code unit outside ASCII never canonicalises to an ASCII one, so only the two
  ASCII cases of a letter match it.
\<close>

definition upper_ascii :: "nat \<Rightarrow> nat" where
  "upper_ascii c = (if 97 \<le> c \<and> c \<le> 122 then c - 32 else c)"

definition ci :: "char \<Rightarrow> nat \<Rightarrow> bool" where
  "ci p c \<longleftrightarrow> upper_ascii c = upper_ascii (of_char p)"

type_synonym pos = "nat option \<times> jsstring"

datatype rx =
    Eps
  | Sym "nat \<Rightarrow> bool"
  | Seq rx rx
  | Alt rx rx
  | Star rx
  | Bol
  | Eol
  | Wordb

fun star_iter :: "nat \<Rightarrow> (pos \<Rightarrow> pos list) \<Rightarrow> pos \<Rightarrow> pos list" where
  "star_iter 0 f p = [p]"
| "star_iter (Suc n) f p =
     p # concat (map (star_iter n f) (filter (\<lambda>q. length (snd q) < length (snd p)) (f p)))"

definition word_before :: "pos \<Rightarrow> bool" where
  "word_before p = (case fst p of None \<Rightarrow> False | Some c \<Rightarrow> is_word c)"

definition word_after :: "pos \<Rightarrow> bool" where
  "word_after p = (case snd p of [] \<Rightarrow> False | c # _ \<Rightarrow> is_word c)"

text \<open>
  An iteration of a starred expression that consumes nothing is dropped, as in
  ECMAScript, so the number of iterations is bounded by the length of the input.
\<close>

primrec rmatch :: "rx \<Rightarrow> pos \<Rightarrow> pos list" where
  "rmatch Eps p = [p]"
| "rmatch (Sym f) p = (case snd p of [] \<Rightarrow> [] | c # t \<Rightarrow> if f c then [(Some c, t)] else [])"
| "rmatch (Seq a b) p = concat (map (rmatch b) (rmatch a p))"
| "rmatch (Alt a b) p = rmatch a p @ rmatch b p"
| "rmatch (Star a) p = star_iter (length (snd p)) (rmatch a) p"
| "rmatch Bol p = (if fst p = None then [p] else [])"
| "rmatch Eol p = (if snd p = [] then [p] else [])"
| "rmatch Wordb p = (if word_before p \<noteq> word_after p then [p] else [])"

text \<open>\<^verbatim>\<open>regex.test(s)\<close>: some match starts at some index of \<open>s\<close>.\<close>

fun search :: "rx \<Rightarrow> nat option \<Rightarrow> jsstring \<Rightarrow> bool" where
  "search r pv [] = (rmatch r (pv, []) \<noteq> [])"
| "search r pv (c # s) = (rmatch r (pv, c # s) \<noteq> [] \<or> search r (Some c) s)"

definition regex_test :: "rx \<Rightarrow> jsstring \<Rightarrow> bool" where
  "regex_test r s = search r None s"

text \<open>Notation of the literals: a sequence, \<^verbatim>\<open>r?\<close>, \<^verbatim>\<open>r+\<close>, a literal word, one character.\<close>

fun seqs :: "rx list \<Rightarrow> rx" where
  "seqs [] = Eps"
| "seqs [r] = r"
| "seqs (r # rs) = Seq r (seqs rs)"

definition Opt :: "rx \<Rightarrow> rx" where
  "Opt r = Alt r Eps"

definition Plus :: "rx \<Rightarrow> rx" where
  "Plus r = Seq r (Star r)"

definition Lit :: "string \<Rightarrow> rx" where
  "Lit w = seqs (map (\<lambda>c. Sym (ci c)) w)"

definition Chr :: "char \<Rightarrow> rx" where
  "Chr c = Sym (ci c)"

text \<open>\<^verbatim>\<open>/\b(Fixes|Closes|Resolves)\s*:?\s*(#\d+)(\s*,\s*#\d+)*/i\<close>\<close>

definition linked_issue_regex :: rx where
  "linked_issue_regex =
     seqs [Wordb,
           Alt (Lit ''Fixes'') (Alt (Lit ''Closes'') (Lit ''Resolves'')),
           Star (Sym is_space), Opt (Chr CHR '':''), Star (Sym is_space),
           Seq (Chr CHR ''#'') (Plus (Sym is_digit)),
           Star (seqs [Star (Sym is_space), Chr CHR '','', Star (Sym is_space),
                       Chr CHR ''#'', Plus (Sym is_digit)])]"

text \<open>\<^verbatim>\<open>/(^|\s)\/unassign(\s|$)/i\<close>\<close>

definition unassign_regex :: rx where
  "unassign_regex =
     seqs [Alt Bol (Sym is_space), Chr CHR ''/'', Lit ''unassign'', Alt (Sym is_space) Eol]"

section \<open>Event payload, environment and the REST API\<close>

text \<open>
  The parts of the event payload the scripts read. A field that may be absent
  (\<^verbatim>\<open>undefined\<close> or \<^verbatim>\<open>null\<close>) is an option; \<open>issue_pull_request\<close> says whether
  the issue carries a \<^verbatim>\<open>pull_request\<close> object.
\<close>

record user =
  user_login :: "jsstring option"
  user_type :: "jsstring option"

record comment =
  comment_body :: "jsstring option"
  comment_user :: "user option"

record pull_request =
  pr_number :: "nat option"
  pr_user :: "user option"
  pr_body :: "jsstring option"

record issue =
  issue_number :: "nat option"
  issue_pull_request :: bool
  issue_state :: "jsstring option"
  issue_assignees :: "user list option"

record payload =
  payload_pull_request :: "pull_request option"
  payload_issue :: "issue option"
  payload_comment :: "comment option"

record ctx =
  payload :: payload
  repo_owner :: jsstring
  repo_repo :: jsstring

text \<open>
  The environment variables of the notifier. \<open>PR_NUMBER\<close> is the value of
  \<^verbatim>\<open>Number(process.env.PR_NUMBER)\<close> for a variable that is unset or holds a natural
  number in decimal; \<open>None\<close> is \<^verbatim>\<open>NaN\<close>.
\<close>

record env =
  DRY_RUN :: "jsstring option"
  PR_NUMBER :: "nat option"

datatype error = Error (message: jsstring) (status: "nat option")

datatype jsval =
    Undefined
  | Bool bool
  | Num nat
  | Str jsstring
  | Err error
  | Arr "jsval list"
  | Obj "(string \<times> jsval) list"

text \<open>An optional field as a logged value; \<open>None\<close> stands for \<^verbatim>\<open>undefined\<close> and for
  \<^verbatim>\<open>null\<close> alike, and is logged as \<open>Undefined\<close>.\<close>

fun num_val :: "nat option \<Rightarrow> jsval" where
  "num_val None = Undefined"
| "num_val (Some n) = Num n"

fun str_val :: "jsstring option \<Rightarrow> jsval" where
  "str_val None = Undefined"
| "str_val (Some s) = Str s"

text \<open>An issue or pull request of a repository: owner, repository, number.\<close>

type_synonym issue_ref = "jsstring \<times> jsstring \<times> nat"

datatype api_call =
    Pulls_get issue_ref
  | List_comments issue_ref
  | Paginate_list_comments issue_ref nat
  | Create_comment issue_ref jsstring
  | Remove_assignees issue_ref "jsstring list"

fun mutating :: "api_call \<Rightarrow> bool" where
  "mutating (Create_comment r b) = True"
| "mutating (Remove_assignees r us) = True"
| "mutating c = False"

datatype event =
    Console_log "jsval list"
  | Console_error "jsval list"
  | Call api_call

text \<open>
  The REST API the scripts talk to is not part of the repository; it is modelled as a
  state: the pull requests, the comment thread and the assignees of every issue, which
  requests fail and with what error (a pull request or an issue that does not exist is
  the error 404 of the request for it), and the account the token belongs to. A request
  that fails changes nothing.
\<close>

record github =
  pulls :: "issue_ref \<Rightarrow> pull_request"
  comments :: "issue_ref \<Rightarrow> comment list"
  assignees :: "issue_ref \<Rightarrow> jsstring list"
  fault :: "api_call \<Rightarrow> error option"
  actor :: user

text \<open>A run of a handler: the state of the API and what the run has logged and requested.\<close>

record run =
  world :: github
  trace :: "event list"

definition emit :: "event \<Rightarrow> run \<Rightarrow> run" where
  "emit e s = s\<lparr>trace := trace s @ [e]\<rparr>"

definition console_log :: "jsval list \<Rightarrow> run \<Rightarrow> run" where
  "console_log args s = emit (Console_log args) s"

definition console_error :: "jsval list \<Rightarrow> run \<Rightarrow> run" where
  "console_error args s = emit (Console_error args) s"

text \<open>\<^verbatim>\<open>await\<close> of a request: a rejected promise throws, and the rest is skipped.\<close>

definition await :: "(error + 'a) \<times> run \<Rightarrow> ('a \<Rightarrow> run \<Rightarrow> (error + 'b) \<times> run) \<Rightarrow> (error + 'b) \<times> run" where
  "await r k = (case r of (Inl e, s) \<Rightarrow> (Inl e, s) | (Inr x, s) \<Rightarrow> k x s)"

definition request :: "api_call \<Rightarrow> (github \<Rightarrow> (error + 'a) \<times> github) \<Rightarrow> run \<Rightarrow> (error + 'a) \<times> run" where
  "request c serve s =
     (let s' = emit (Call c) s in
      case fault (world s) c of
        Some e \<Rightarrow> (Inl e, s')
      | None \<Rightarrow> (case serve (world s) of (r, w') \<Rightarrow> (r, s'\<lparr>world := w'\<rparr>)))"

text \<open>\<^verbatim>\<open>github.rest.pulls.get\<close>: the data of the pull request.\<close>

definition pulls_get :: "issue_ref \<Rightarrow> run \<Rightarrow> (error + pull_request) \<times> run" where
  "pulls_get r = request (Pulls_get r) (\<lambda>w. (Inr (pulls w r), w))"

text \<open>
  \<^verbatim>\<open>github.rest.issues.listComments\<close> called without \<^verbatim>\<open>per_page\<close> and
  \<^verbatim>\<open>page\<close>: one request, which the API answers with the first page of the thread,
  oldest comment first, 30 comments to a page.
\<close>

definition default_per_page :: nat where
  "default_per_page = 30"

definition listComments :: "issue_ref \<Rightarrow> run \<Rightarrow> (error + comment list) \<times> run" where
  "listComments r =
     request (List_comments r) (\<lambda>w. (Inr (take default_per_page (comments w r)), w))"

text \<open>
  \<^verbatim>\<open>github.paginate(github.rest.issues.listComments, ...)\<close>: every page, concatenated,
  that is the whole thread.
\<close>

definition paginate_listComments :: "issue_ref \<Rightarrow> nat \<Rightarrow> run \<Rightarrow> (error + comment list) \<times> run" where
  "paginate_listComments r per_page =
     request (Paginate_list_comments r per_page) (\<lambda>w. (Inr (comments w r), w))"

text \<open>\<^verbatim>\<open>github.rest.issues.createComment\<close>: a new comment by the token's account at the
  end of the thread.\<close>

definition createComment :: "issue_ref \<Rightarrow> jsstring \<Rightarrow> run \<Rightarrow> (error + unit) \<times> run" where
  "createComment r b =
     request (Create_comment r b)
       (\<lambda>w. (Inr (),
              w\<lparr>comments := (comments w)
                   (r := comments w r @ [\<lparr>comment_body = Some b, comment_user = Some (actor w)\<rparr>])\<rparr>))"

text \<open>\<^verbatim>\<open>github.rest.issues.removeAssignees\<close>: the named users are no longer assignees.\<close>

definition removeAssignees :: "issue_ref \<Rightarrow> jsstring list \<Rightarrow> run \<Rightarrow> (error + unit) \<times> run" where
  "removeAssignees r us =
     request (Remove_assignees r us)
       (\<lambda>w. (Inr (),
              w\<lparr>assignees := (assignees w) (r := filter (\<lambda>a. a \<notin> set us) (assignees w r))\<rparr>))"

section \<open>The missing-issue-link notifier\<close>

text \<open>\<^verbatim>\<open>.github/scripts/bot-pr-missing-linked-issue.js\<close>\<close>

definition LINKBOT_MARKER :: jsstring where
  "LINKBOT_MARKER = str ''<!-- LinkBot Missing Issue -->''"

text \<open>\<^verbatim>\<open>comment.body?.includes(marker)\<close>, and likewise
  \<^verbatim>\<open>typeof c.body === 'string' && c.body.includes(marker)\<close> of the other script.\<close>

definition has_marker :: "jsstring \<Rightarrow> comment \<Rightarrow> bool" where
  "has_marker m cm = (case comment_body cm of None \<Rightarrow> False | Some b \<Rightarrow> str_includes b m)"

text \<open>A value inside a template literal. \<open>None\<close> stands for \<^verbatim>\<open>undefined\<close> and for
  \<^verbatim>\<open>null\<close> alike, and is rendered as \<^verbatim>\<open>undefined\<close>.\<close>

fun show_opt :: "jsstring option \<Rightarrow> jsstring" where
  "show_opt None = str ''undefined''"
| "show_opt (Some s) = s"

text \<open>The template of the reminder (lines 57 to 74).\<close>

definition commentBody :: "jsstring \<Rightarrow> jsstring \<Rightarrow> jsstring \<Rightarrow> jsstring" where
  "commentBody owner repo safeAuthor =
     join_lines
       [LINKBOT_MARKER @ str ''Hi @'' @ safeAuthor @ str '', this is **LinkBot** '' @ [0xD83D, 0xDC4B],
        [],
        str ''Linking pull requests to issues helps us significantly with reviewing pull requests and keeping the repository healthy.'',
        [],
        [0xD83D, 0xDEA8] @ str '' **This pull request does not have an issue linked.**'',
        [],
        str ''Please link an issue using the following format:'',
        str ''- Fixes #123'',
        [],
        [0xD83D, 0xDCD6] @ str '' Guide:'',
        str ''[docs/sdk_developers/how_to_link_issues.md](https://github.com/'' @ owner @ str ''/'' @ repo
          @ str ''/blob/main/docs/sdk_developers/how_to_link_issues.md)'',
        [],
        str ''If no issue exists yet, please create one:'',
        str ''[docs/sdk_developers/creating_issues.md](https://github.com/'' @ owner @ str ''/'' @ repo
          @ str ''/blob/main/docs/sdk_developers/creating_issues.md)'',
        [],
        str ''Thanks!'']"

text \<open>Lines 55 to 92: the pattern is tested, and the reminder is posted or, in a dry run,
  logged.\<close>

definition post_reminder ::
  "bool \<Rightarrow> issue_ref \<Rightarrow> jsstring option \<Rightarrow> jsstring \<Rightarrow> run \<Rightarrow> (error + unit) \<times> run" where
  "post_reminder isDryRun r authorLogin body s =
     (if \<not> regex_test linked_issue_regex body then
        let safeAuthor = (case authorLogin of None \<Rightarrow> str ''there'' | Some l \<Rightarrow> l);
            cb = commentBody (fst r) (fst (snd r)) safeAuthor
        in if isDryRun then
             (Inr (),
              console_log [Str (str ''---'')]
                (console_log [Str cb]
                  (console_log [Str (str ''---'')]
                    (console_log [Str (str ''DRY RUN: Would post the following comment:'')] s))))
           else
             await (createComment r cb s)
               (\<lambda>_ s'. (Inr (), console_log [Str (str ''LinkBot comment posted successfully'')] s'))
      else (Inr (), console_log [Str (str ''PR has linked issue - no comment needed'')] s))"

text \<open>\<^verbatim>\<open>authorType === "Bot" || authorLogin?.endsWith('[bot]')\<close>\<close>

definition authorType :: "pull_request \<Rightarrow> jsstring option" where
  "authorType prData = Option.bind (pr_user prData) user_type"

definition authorLogin :: "pull_request \<Rightarrow> jsstring option" where
  "authorLogin prData = Option.bind (pr_user prData) user_login"

definition bot_author :: "pull_request \<Rightarrow> bool" where
  "bot_author prData \<longleftrightarrow>
     authorType prData = Some (str ''Bot'')
     \<or> (case authorLogin prData of None \<Rightarrow> False | Some l \<Rightarrow> endsWith l (str ''[bot]''))"

text \<open>Lines 17 to 27: the pull request of the payload, or the one the API returns.\<close>

definition prData_of :: "ctx \<Rightarrow> issue_ref \<Rightarrow> run \<Rightarrow> (error + pull_request) \<times> run" where
  "prData_of c r s =
     (case payload_pull_request (payload c) of
        Some pr \<Rightarrow> (Inr pr, s)
      | None \<Rightarrow> pulls_get r s)"

text \<open>Lines 29 to 92: the author check, the scan of the thread for the marker, and the
  reminder.\<close>

definition check_and_post :: "bool \<Rightarrow> issue_ref \<Rightarrow> pull_request \<Rightarrow> run \<Rightarrow> (error + unit) \<times> run" where
  "check_and_post isDryRun r prData s2 =
     (if bot_author prData then
        (Inr (),
         console_log
           [Str (str ''Skipping comment: PR created by bot (''
                 @ show_opt (authorLogin prData) @ str '')'')] s2)
      else
        let body = (case pr_body prData of None \<Rightarrow> [] | Some b \<Rightarrow> b)
        in await (listComments r s2)
             (\<lambda>cs s3.
                if list_ex (has_marker LINKBOT_MARKER) cs then
                  (Inr (), console_log [Str (str ''LinkBot already commented on this PR'')] s3)
                else post_reminder isDryRun r (authorLogin prData) body s3))"

text \<open>The body of the \<^verbatim>\<open>try\<close> block, lines 6 to 92.\<close>

definition notifier_try :: "env \<Rightarrow> ctx \<Rightarrow> nat option \<Rightarrow> run \<Rightarrow> (error + unit) \<times> run" where
  "notifier_try ev c prNumber s =
     (let isDryRun = (DRY_RUN ev = Some (str ''true'')) in
      case prNumber of
        None \<Rightarrow> (Inl (Error (str ''PR number could not be determined'') None), s)
      | Some n \<Rightarrow>
          if n = 0 then (Inl (Error (str ''PR number could not be determined'') None), s)
          else
            let s1 = console_log
                       [Str (str ''Processing PR #'' @ show_nat n @ str '' (Dry run: ''
                             @ show_bool isDryRun @ str '')'')] s;
                r = (repo_owner c, repo_repo c, n)
            in await (prData_of c r s1) (check_and_post isDryRun r))"

text \<open>\<^verbatim>\<open>Number(process.env.PR_NUMBER) || context.payload.pull_request?.number\<close>\<close>

definition prNumber_of :: "env \<Rightarrow> ctx \<Rightarrow> nat option" where
  "prNumber_of ev c =
     (if truthy_num (PR_NUMBER ev) then PR_NUMBER ev
      else Option.bind (payload_pull_request (payload c)) pr_number)"

text \<open>The handler: the \<^verbatim>\<open>try\<close> block and its \<^verbatim>\<open>catch\<close> (lines 93 to 98). \<open>Inl\<close> is
  the error the handler throws, \<open>Inr\<close> a normal return.\<close>

definition notifier :: "env \<Rightarrow> ctx \<Rightarrow> github \<Rightarrow> (error + unit) \<times> run" where
  "notifier ev c w =
     (let prNumber = prNumber_of ev c in
      case notifier_try ev c prNumber \<lparr>world = w, trace = []\<rparr> of
        (Inr u, s) \<Rightarrow> (Inr u, s)
      | (Inl e, s) \<Rightarrow>
          (Inl e,
           console_error [Str (str ''Repository:''), Str (repo_owner c @ str ''/'' @ repo_repo c)]
             (console_error [Str (str ''PR number:''), num_val prNumber]
               (console_error [Str (str ''Error processing PR:''), Err e] s))))"

section \<open>The self-unassign handler\<close>

text \<open>The second script (\<^verbatim>\<open>Unassign Bot\<close>).\<close>

definition isValidUnassignContext :: "issue option \<Rightarrow> comment option \<Rightarrow> bool" where
  "isValidUnassignContext i cm =
     (if \<not> truthy_num (Option.bind i issue_number) \<or> (case i of None \<Rightarrow> False | Some i' \<Rightarrow> issue_pull_request i')
        then False
      else if \<not> truthy_str (Option.bind cm comment_body)
              \<or> \<not> truthy_str (Option.bind (Option.bind cm comment_user) user_login)
        then False
      else if Option.bind (Option.bind cm comment_user) user_type = Some (str ''Bot'') then False
      else if Option.bind i issue_state \<noteq> Some (str ''open'') then False
      else True)"

definition commentRequestsUnassign :: "jsstring option \<Rightarrow> bool" where
  "commentRequestsUnassign body =
     (case body of None \<Rightarrow> False | Some b \<Rightarrow> regex_test unassign_regex b)"

definition buildUnassignMarker :: "jsstring \<Rightarrow> jsstring" where
  "buildUnassignMarker username = str ''<!-- unassign-requested:'' @ username @ str '' -->''"

text \<open>\<^verbatim>\<open>issue.assignees?.some(a => a.login === username)\<close>; the caller negates the
  result, and \<^verbatim>\<open>undefined\<close> is falsy.\<close>

definition isCurrentAssignee :: "issue \<Rightarrow> jsstring \<Rightarrow> bool" where
  "isCurrentAssignee i username =
     (case issue_assignees i of
        None \<Rightarrow> False
      | Some as \<Rightarrow> list_ex (\<lambda>a. user_login a = Some username) as)"

definition confirmationMessage :: "jsstring \<Rightarrow> jsstring" where
  "confirmationMessage username =
     [0x2705] @ str '' **@'' @ username @ str '', you'' @ [0x2019]
       @ str ''ve been unassigned from this issue.**'' @ [10, 10]
       @ str ''Thanks for letting us know! If you'' @ [0x2019] @ str ''d like to work on something else, ''
       @ str ''feel free to browse our open issues.''"

definition confirmation_body :: "jsstring \<Rightarrow> jsstring" where
  "confirmation_body username =
     buildUnassignMarker username @ [10, 10] @ confirmationMessage username"

text \<open>The fields of the payload as the log objects read them.\<close>

definition issueNumber_of :: "ctx \<Rightarrow> nat option" where
  "issueNumber_of c = Option.bind (payload_issue (payload c)) issue_number"

definition commenter_of :: "ctx \<Rightarrow> jsstring option" where
  "commenter_of c = Option.bind (Option.bind (payload_comment (payload c)) comment_user) user_login"

definition commenterType_of :: "ctx \<Rightarrow> jsstring option" where
  "commenterType_of c = Option.bind (Option.bind (payload_comment (payload c)) comment_user) user_type"

definition requester_log :: "jsstring \<Rightarrow> nat \<Rightarrow> jsval" where
  "requester_log username issueNumber =
     Obj [(''requester'', Str username), (''issueNumber'', Num issueNumber)]"

text \<open>Lines 85 to 136, once the commenter is known to be an assignee.\<close>

definition unassign_act :: "issue_ref \<Rightarrow> jsstring \<Rightarrow> run \<Rightarrow> (error + unit) \<times> run" where
  "unassign_act r username s =
     await (paginate_listComments r 100 s)
       (\<lambda>cs s1.
          let marker = buildUnassignMarker username in
          if list_ex (has_marker marker) cs then
            (Inr (),
             console_log [Str (str ''[unassign] Exit: unassign already requested previously''),
                          requester_log username (snd (snd r))] s1)
          else
            let s2 = console_log [Str (str ''[unassign] Proceeding to unassign user''),
                                  requester_log username (snd (snd r))] s1
            in await (removeAssignees r [username] s2)
                 (\<lambda>_ s3.
                    await (createComment r (marker @ [10, 10] @ confirmationMessage username) s3)
                      (\<lambda>_ s4.
                         (Inr (),
                          console_log [Str (str ''[unassign] Unassign completed successfully''),
                                       requester_log username (snd (snd r))] s4))))"

text \<open>The body of the \<^verbatim>\<open>try\<close> block, lines 45 to 136. After the validation the issue,
  its number, the comment, its author and the login are there; reading a field of a
  missing object would be a \<^verbatim>\<open>TypeError\<close>.\<close>

definition unassign_try :: "ctx \<Rightarrow> run \<Rightarrow> (error + unit) \<times> run" where
  "unassign_try c s =
     (let i = payload_issue (payload c);
          cm = payload_comment (payload c);
          s1 = console_log
                 [Str (str ''[unassign] Payload snapshot:''),
                  Obj [(''issueNumber'', num_val (issueNumber_of c)),
                       (''commenter'', str_val (commenter_of c)),
                       (''commenterType'', str_val (commenterType_of c)),
                       (''commentBody'', str_val (Option.bind cm comment_body))]] s
      in if \<not> isValidUnassignContext i cm then
           (Inr (),
            console_log
              [Str (str ''[unassign] Exit: invalid unassign context''),
               Obj [(''issueNumber'', num_val (issueNumber_of c)),
                    (''commenter'', str_val (commenter_of c)),
                    (''issueState'', str_val (Option.bind i issue_state)),
                    (''isBot'', Bool (commenterType_of c = Some (str ''Bot'')))]] s1)
         else if \<not> commentRequestsUnassign (Option.bind cm comment_body) then
           (Inr (), console_log [Str (str ''[unassign] Exit: comment does not request unassign'')] s1)
         else
           case (i, issueNumber_of c, commenter_of c) of
             (Some i', Some issueNumber, Some username) \<Rightarrow>
               let s2 = console_log [Str (str ''[unassign] Unassign command detected by''), Str username] s1
               in if \<not> isCurrentAssignee i' username then
                    (Inr (),
                     console_log
                       [Str (str ''[unassign] Exit: commenter is not an assignee''),
                        Obj [(''requester'', Str username),
                             (''currentAssignees'',
                              (case issue_assignees i' of
                                 None \<Rightarrow> Undefined
                               | Some as \<Rightarrow> Arr (map (\<lambda>a. str_val (user_login a)) as)))]] s2)
                  else unassign_act (repo_owner c, repo_repo c, issueNumber) username s2
           | _ \<Rightarrow> (Inl (Error (str ''TypeError'') None), s1))"

text \<open>The handler with its \<^verbatim>\<open>catch\<close> (lines 138 to 146).\<close>

definition unassign :: "ctx \<Rightarrow> github \<Rightarrow> (error + unit) \<times> run" where
  "unassign c w =
     (case unassign_try c \<lparr>world = w, trace = []\<rparr> of
        (Inr u, s) \<Rightarrow> (Inr u, s)
      | (Inl e, s) \<Rightarrow>
          (Inl e,
           console_error
             [Str (str ''[unassign] Error:''),
              Obj [(''message'', Str (message e)),
                   (''status'', num_val (status e)),
                   (''issueNumber'', num_val (issueNumber_of c)),
                   (''commenter'', str_val (commenter_of c))]] s))"

section \<open>What a run did\<close>

text \<open>The requests of a run, in order.\<close>

fun calls :: "event list \<Rightarrow> api_call list" where
  "calls [] = []"
| "calls (Call c # es) = c # calls es"
| "calls (e # es) = calls es"

text \<open>A run performed no API mutation: it made no mutating request, and the state of
  the API after it is the state before it.\<close>

definition no_mutation :: "github \<Rightarrow> (error + unit) \<times> run \<Rightarrow> bool" where
  "no_mutation w res \<longleftrightarrow>
     world (snd res) = w \<and> list_all (\<lambda>c. \<not> mutating c) (calls (trace (snd res)))"

text \<open>The last \<open>k\<close> events of a trace.\<close>

definition last_events :: "nat \<Rightarrow> event list \<Rightarrow> event list" where
  "last_events k tr = drop (length tr - k) tr"

text \<open>The state of the API after a comment has been added to a thread, and after
  assignees have been removed.\<close>

definition add_comment :: "issue_ref \<Rightarrow> jsstring \<Rightarrow> github \<Rightarrow> github" where
  "add_comment r b w =
     w\<lparr>comments := (comments w)
          (r := comments w r @ [\<lparr>comment_body = Some b, comment_user = Some (actor w)\<rparr>])\<rparr>"

definition drop_assignees :: "issue_ref \<Rightarrow> jsstring list \<Rightarrow> github \<Rightarrow> github" where
  "drop_assignees r us w =
     w\<lparr>assignees := (assignees w) (r := filter (\<lambda>a. a \<notin> set us) (assignees w r))\<rparr>"

subsection \<open>The notifier's inputs and events\<close>

text \<open>The pull request a run of the notifier works on: the one of the payload, or else
  the one the API has under the number of the run.\<close>

definition pr_seen :: "env \<Rightarrow> ctx \<Rightarrow> github \<Rightarrow> pull_request option" where
  "pr_seen ev c w =
     (case payload_pull_request (payload c) of
        Some pr \<Rightarrow> Some pr
      | None \<Rightarrow> (case prNumber_of ev c of
                   None \<Rightarrow> None
                 | Some n \<Rightarrow> Some (pulls w (repo_owner c, repo_repo c, n))))"

definition ref_of :: "ctx \<Rightarrow> nat \<Rightarrow> issue_ref" where
  "ref_of c n = (repo_owner c, repo_repo c, n)"

text \<open>A run of the notifier gets as far as the author check, for number \<open>n\<close> and with
  the data \<open>pr\<close>: the number is determined, and the data are in the payload or the
  request for them does not fail.\<close>

definition works_on :: "env \<Rightarrow> ctx \<Rightarrow> github \<Rightarrow> nat \<Rightarrow> pull_request \<Rightarrow> bool" where
  "works_on ev c w n pr \<longleftrightarrow>
     prNumber_of ev c = Some n \<and> n \<noteq> 0 \<and> pr_seen ev c w = Some pr
     \<and> (payload_pull_request (payload c) = None \<longrightarrow> fault w (Pulls_get (ref_of c n)) = None)"

definition isDryRun :: "env \<Rightarrow> bool" where
  "isDryRun ev \<longleftrightarrow> DRY_RUN ev = Some (str ''true'')"

definition body_of :: "pull_request \<Rightarrow> jsstring" where
  "body_of prData = (case pr_body prData of None \<Rightarrow> [] | Some b \<Rightarrow> b)"

definition reminder_of :: "issue_ref \<Rightarrow> pull_request \<Rightarrow> jsstring" where
  "reminder_of r prData =
     commentBody (fst r) (fst (snd r))
       (case authorLogin prData of None \<Rightarrow> str ''there'' | Some l \<Rightarrow> l)"

text \<open>The marker is on the page of the thread that the notifier reads.\<close>

definition marked :: "github \<Rightarrow> issue_ref \<Rightarrow> bool" where
  "marked w r \<longleftrightarrow> list_ex (has_marker LINKBOT_MARKER) (take default_per_page (comments w r))"

definition no_pr_number :: error where
  "no_pr_number = Error (str ''PR number could not be determined'') None"

definition ev_processing :: "nat \<Rightarrow> bool \<Rightarrow> event" where
  "ev_processing n d =
     Console_log [Str (str ''Processing PR #'' @ show_nat n @ str '' (Dry run: ''
                       @ show_bool d @ str '')'')]"

definition ev_fetch :: "ctx \<Rightarrow> issue_ref \<Rightarrow> event list" where
  "ev_fetch c r = (case payload_pull_request (payload c) of None \<Rightarrow> [Call (Pulls_get r)] | Some _ \<Rightarrow> [])"

definition ev_skipping :: "pull_request \<Rightarrow> event" where
  "ev_skipping prData =
     Console_log [Str (str ''Skipping comment: PR created by bot (''
                       @ show_opt (authorLogin prData) @ str '')'')]"

definition ev_already :: event where
  "ev_already = Console_log [Str (str ''LinkBot already commented on this PR'')]"

definition ev_linked :: event where
  "ev_linked = Console_log [Str (str ''PR has linked issue - no comment needed'')]"

definition ev_dry_run :: "jsstring \<Rightarrow> event list" where
  "ev_dry_run cb =
     [Console_log [Str (str ''DRY RUN: Would post the following comment:'')],
      Console_log [Str (str ''---'')],
      Console_log [Str cb],
      Console_log [Str (str ''---'')]]"

definition ev_posted :: event where
  "ev_posted = Console_log [Str (str ''LinkBot comment posted successfully'')]"

text \<open>What the \<^verbatim>\<open>catch\<close> block of the notifier logs.\<close>

definition ev_caught :: "error \<Rightarrow> env \<Rightarrow> ctx \<Rightarrow> event list" where
  "ev_caught e ev c =
     [Console_error [Str (str ''Error processing PR:''), Err e],
      Console_error [Str (str ''PR number:''), num_val (prNumber_of ev c)],
      Console_error [Str (str ''Repository:''), Str (repo_owner c @ str ''/'' @ repo_repo c)]]"

text \<open>Successive invocations of the notifier, each on the state the one before left.\<close>

fun notifier_runs :: "(env \<times> ctx) list \<Rightarrow> github \<Rightarrow> github" where
  "notifier_runs [] w = w"
| "notifier_runs (ec # rest) w = notifier_runs rest (world (snd (notifier (fst ec) (snd ec) w)))"

subsection \<open>The unassign handler's inputs and events\<close>

text \<open>The comment of the event is a valid request to unassign: it passes the validation
  and carries the command; \<open>i\<close> is the issue, \<open>n\<close> its number and \<open>u\<close> the login of
  the commenter.\<close>

definition requests_by :: "ctx \<Rightarrow> issue \<Rightarrow> nat \<Rightarrow> jsstring \<Rightarrow> bool" where
  "requests_by c i n u \<longleftrightarrow>
     isValidUnassignContext (payload_issue (payload c)) (payload_comment (payload c))
     \<and> commentRequestsUnassign (Option.bind (payload_comment (payload c)) comment_body)
     \<and> payload_issue (payload c) = Some i \<and> issue_number i = Some n \<and> commenter_of c = Some u"

text \<open>Some comment of the thread carries the marker of the user.\<close>

definition unassigned_before :: "github \<Rightarrow> issue_ref \<Rightarrow> jsstring \<Rightarrow> bool" where
  "unassigned_before w r u \<longleftrightarrow> list_ex (has_marker (buildUnassignMarker u)) (comments w r)"

definition ev_snapshot :: "ctx \<Rightarrow> event" where
  "ev_snapshot c =
     Console_log
       [Str (str ''[unassign] Payload snapshot:''),
        Obj [(''issueNumber'', num_val (issueNumber_of c)),
             (''commenter'', str_val (commenter_of c)),
             (''commenterType'', str_val (commenterType_of c)),
             (''commentBody'', str_val (Option.bind (payload_comment (payload c)) comment_body))]]"

definition ev_invalid :: "ctx \<Rightarrow> event" where
  "ev_invalid c =
     Console_log
       [Str (str ''[unassign] Exit: invalid unassign context''),
        Obj [(''issueNumber'', num_val (issueNumber_of c)),
             (''commenter'', str_val (commenter_of c)),
             (''issueState'', str_val (Option.bind (payload_issue (payload c)) issue_state)),
             (''isBot'', Bool (commenterType_of c = Some (str ''Bot'')))]]"

definition ev_no_request :: event where
  "ev_no_request = Console_log [Str (str ''[unassign] Exit: comment does not request unassign'')]"

definition ev_detected :: "jsstring \<Rightarrow> event" where
  "ev_detected u = Console_log [Str (str ''[unassign] Unassign command detected by''), Str u]"

definition ev_not_assignee :: "issue \<Rightarrow> jsstring \<Rightarrow> event" where
  "ev_not_assignee i u =
     Console_log
       [Str (str ''[unassign] Exit: commenter is not an assignee''),
        Obj [(''requester'', Str u),
             (''currentAssignees'',
              (case issue_assignees i of
                 None \<Rightarrow> Undefined
               | Some as \<Rightarrow> Arr (map (\<lambda>a. str_val (user_login a)) as)))]]"

definition ev_repeat :: "jsstring \<Rightarrow> nat \<Rightarrow> event" where
  "ev_repeat u n =
     Console_log [Str (str ''[unassign] Exit: unassign already requested previously''),
                  requester_log u n]"

definition ev_proceeding :: "jsstring \<Rightarrow> nat \<Rightarrow> event" where
  "ev_proceeding u n =
     Console_log [Str (str ''[unassign] Proceeding to unassign user''), requester_log u n]"

definition ev_completed :: "jsstring \<Rightarrow> nat \<Rightarrow> event" where
  "ev_completed u n =
     Console_log [Str (str ''[unassign] Unassign completed successfully''), requester_log u n]"

text \<open>What the \<^verbatim>\<open>catch\<close> block of the unassign handler logs.\<close>

definition ev_unassign_error :: "error \<Rightarrow> ctx \<Rightarrow> event" where
  "ev_unassign_error e c =
     Console_error
       [Str (str ''[unassign] Error:''),
        Obj [(''message'', Str (message e)),
             (''status'', num_val (status e)),
             (''issueNumber'', num_val (issueNumber_of c)),
             (''commenter'', str_val (commenter_of c))]]"

subsection \<open>Sample events and API states\<close>

definition alice :: user where
  "alice = \<lparr>user_login = Some (str ''alice''), user_type = Some (str ''User'')\<rparr>"

definition bob :: user where
  "bob = \<lparr>user_login = Some (str ''bob''), user_type = Some (str ''User'')\<rparr>"

definition dependabot :: user where
  "dependabot = \<lparr>user_login = Some (str ''dependabot[bot]''), user_type = Some (str ''Bot'')\<rparr>"


definition actions_bot :: user where
  "actions_bot = \<lparr>user_login = Some (str ''github-actions[bot]''), user_type = Some (str ''Bot'')\<rparr>"

text \<open>Pull request 7 of the repository, by an author and with a body.\<close>

definition pr_by :: "user \<Rightarrow> jsstring option \<Rightarrow> pull_request" where
  "pr_by a b = \<lparr>pr_number = Some 7, pr_user = Some a, pr_body = b\<rparr>"

definition pr_event :: "pull_request \<Rightarrow> ctx" where
  "pr_event pr =
     \<lparr>payload = \<lparr>payload_pull_request = Some pr, payload_issue = None, payload_comment = None\<rparr>,
      repo_owner = str ''hiero-ledger'', repo_repo = str ''hiero-sdk-python''\<rparr>"

text \<open>A comment on issue 5 of the repository: the state and the assignees of the issue,
  the author and the body of the comment.\<close>

definition comment_event :: "jsstring \<Rightarrow> user list \<Rightarrow> user \<Rightarrow> jsstring \<Rightarrow> ctx" where
  "comment_event st as a b =
     \<lparr>payload =
        \<lparr>payload_pull_request = None,
         payload_issue = Some \<lparr>issue_number = Some 5, issue_pull_request = False,
                               issue_state = Some st, issue_assignees = Some as\<rparr>,
         payload_comment = Some \<lparr>comment_body = Some b, comment_user = Some a\<rparr>\<rparr>,
      repo_owner = str ''hiero-ledger'', repo_repo = str ''hiero-sdk-python''\<rparr>"

definition repo_ref :: "nat \<Rightarrow> issue_ref" where
  "repo_ref n = (str ''hiero-ledger'', str ''hiero-sdk-python'', n)"

definition plain_env :: env where
  "plain_env = \<lparr>DRY_RUN = None, PR_NUMBER = None\<rparr>"

definition dry_env :: env where
  "dry_env = \<lparr>DRY_RUN = Some (str ''true''), PR_NUMBER = None\<rparr>"

text \<open>An API state with empty threads and no assignees, in which every request succeeds;
  the same with every request failing, with given assignees of issue 5, and with one
  earlier comment on issue 5.\<close>

definition quiet :: github where
  "quiet = \<lparr>pulls = (\<lambda>r. \<lparr>pr_number = Some (snd (snd r)), pr_user = None, pr_body = None\<rparr>),
            comments = (\<lambda>r. []), assignees = (\<lambda>r. []), fault = (\<lambda>a. None),
            actor = actions_bot\<rparr>"

definition bad_gateway :: error where
  "bad_gateway = Error (str ''Bad Gateway'') (Some 502)"

definition flaky :: github where
  "flaky = quiet\<lparr>fault := (\<lambda>a. Some bad_gateway)\<rparr>"

definition assigned :: "jsstring list \<Rightarrow> github" where
  "assigned us = quiet\<lparr>assignees := (assignees quiet) (repo_ref 5 := us)\<rparr>"

definition issue5 :: "user list \<Rightarrow> issue" where
  "issue5 as = \<lparr>issue_number = Some 5, issue_pull_request = False,
                issue_state = Some (str ''open''), issue_assignees = Some as\<rparr>"

definition with_comment :: "jsstring \<Rightarrow> github" where
  "with_comment b =
     quiet\<lparr>comments := (comments quiet)
             (repo_ref 5 := [\<lparr>comment_body = Some b, comment_user = Some actions_bot\<rparr>])\<rparr>"

section \<open>Matching\<close>

lemma search_append:
  "rmatch r ((if pre = [] then pv else Some (last pre)), s) \<noteq> [] \<Longrightarrow> search r pv (pre @ s)"
proof (induction pre arbitrary: pv)
  case Nil
  then show ?case by (cases s) simp_all
next
  case (Cons a pre)
  have "search r (Some a) (pre @ s)"
    using Cons.prems by (intro Cons.IH) (simp split: if_splits)
  then show ?case by simp
qed

lemma search_snoc:
  "rmatch r ((if pre = [] then pv else Some (last pre)), c # s) \<noteq> [] \<Longrightarrow> search r pv (pre @ c # s)"
  by (rule search_append)

lemma unassign_tok_units:
  assumes "map upper_ascii tok = map upper_ascii (str ''/unassign'')"
  obtains t0 t1 t2 t3 t4 t5 t6 t7 t8 where "tok = [t0, t1, t2, t3, t4, t5, t6, t7, t8]"
    and "ci CHR ''/'' t0" and "ci CHR ''u'' t1" and "ci CHR ''n'' t2" and "ci CHR ''a'' t3"
    and "ci CHR ''s'' t4" and "ci CHR ''s'' t5" and "ci CHR ''i'' t6" and "ci CHR ''g'' t7"
    and "ci CHR ''n'' t8"
  using assms by (auto simp: str_def map_eq_Cons_conv ci_def)

lemma unassign_match_bol:
  assumes tok: "map upper_ascii tok = map upper_ascii (str ''/unassign'')"
    and after: "post = [] \<or> is_space (hd post)"
  shows "rmatch unassign_regex (None, tok @ post) \<noteq> []"
proof -
  from tok obtain t0 t1 t2 t3 t4 t5 t6 t7 t8 where t: "tok = [t0, t1, t2, t3, t4, t5, t6, t7, t8]"
    and c: "ci CHR ''/'' t0" "ci CHR ''u'' t1" "ci CHR ''n'' t2" "ci CHR ''a'' t3"
     "ci CHR ''s'' t4" "ci CHR ''s'' t5" "ci CHR ''i'' t6" "ci CHR ''g'' t7" "ci CHR ''n'' t8"
    by (rule unassign_tok_units)
  show ?thesis
    using after by (cases post) (simp_all add: t c unassign_regex_def Lit_def Chr_def)
qed

lemma unassign_match_space:
  assumes tok: "map upper_ascii tok = map upper_ascii (str ''/unassign'')"
    and sp: "is_space c"
    and after: "post = [] \<or> is_space (hd post)"
  shows "rmatch unassign_regex (pv, c # tok @ post) \<noteq> []"
proof -
  from tok obtain t0 t1 t2 t3 t4 t5 t6 t7 t8 where t: "tok = [t0, t1, t2, t3, t4, t5, t6, t7, t8]"
    and c: "ci CHR ''/'' t0" "ci CHR ''u'' t1" "ci CHR ''n'' t2" "ci CHR ''a'' t3"
     "ci CHR ''s'' t4" "ci CHR ''s'' t5" "ci CHR ''i'' t6" "ci CHR ''g'' t7" "ci CHR ''n'' t8"
    by (rule unassign_tok_units)
  show ?thesis
    using after sp by (cases post) (simp_all add: t c unassign_regex_def Lit_def Chr_def)
qed

lemma unassign_token:
  assumes tok: "map upper_ascii tok = map upper_ascii (str ''/unassign'')"
    and before: "pre = [] \<or> is_space (last pre)"
    and after: "post = [] \<or> is_space (hd post)"
  shows "regex_test unassign_regex (pre @ tok @ post)"
proof (cases "pre = []")
  case True
  have "search unassign_regex None ([] @ tok @ post)"
    by (rule search_append) (simp add: unassign_match_bol [OF tok after])
  with True show ?thesis by (simp add: regex_test_def)
next
  case False
  then obtain pre' c where pre: "pre = pre' @ [c]"
    by (metis rev_exhaust)
  with before have sp: "is_space c" by simp
  have "search unassign_regex None (pre' @ c # tok @ post)"
    by (rule search_append) (rule unassign_match_space [OF tok sp after])
  with pre show ?thesis by (simp add: regex_test_def)
qed

lemma star_iter_self: "p \<in> set (star_iter n f p)"
  by (cases n) simp_all

lemma rmatch_Star_self: "p \<in> set (rmatch (Star a) p)"
  by (simp add: star_iter_self)

lemma rmatch_SeqI: "q \<in> set (rmatch a p) \<Longrightarrow> t \<in> set (rmatch b q) \<Longrightarrow> t \<in> set (rmatch (Seq a b) p)"
  by auto

lemma fixes12_match:
  assumes "\<not> word_before (pv, [])"
  shows "rmatch linked_issue_regex (pv, str ''Fixes #12'' @ post) \<noteq> []"
proof -
  let ?p0 = "(pv, 70 # 105 # 120 # 101 # 115 # 32 # 35 # 49 # 50 # post)"
  let ?p1 = "(Some 115, 32 # 35 # 49 # 50 # post)"
  let ?p2 = "(Some 32, 35 # 49 # 50 # post)"
  let ?p3 = "(Some 49, 50 # post)"
  let ?tail = "Star (seqs [Star (Sym is_space), Chr CHR '','', Star (Sym is_space),
                       Chr CHR ''#'', Plus (Sym is_digit)])"
  have s: "str ''Fixes #12'' @ post = snd ?p0"
    by (simp add: str_def)
  have a: "?p0 \<in> set (rmatch Wordb ?p0)"
    using assms by (simp add: word_before_def word_after_def is_word_def)
  have b: "?p1 \<in> set (rmatch (Alt (Lit ''Fixes'') (Alt (Lit ''Closes'') (Lit ''Resolves''))) ?p0)"
    by (simp add: Lit_def ci_def upper_ascii_def)
  have c: "?p2 \<in> set (rmatch (Star (Sym is_space)) ?p1)"
    by (simp add: is_space_def)
  have d: "?p2 \<in> set (rmatch (Opt (Chr CHR '':'')) ?p2)"
    by (simp add: Opt_def)
  have e: "?p2 \<in> set (rmatch (Star (Sym is_space)) ?p2)"
    by (rule rmatch_Star_self)
  have f: "?p3 \<in> set (rmatch (Seq (Chr CHR ''#'') (Plus (Sym is_digit))) ?p2)"
    by (simp add: Chr_def Plus_def ci_def upper_ascii_def is_digit_def)
  have g: "?p3 \<in> set (rmatch ?tail ?p3)"
    by (rule rmatch_Star_self)
  have "?p3 \<in> set (rmatch linked_issue_regex ?p0)"
    unfolding linked_issue_regex_def seqs.simps
    by (intro rmatch_SeqI [OF a] rmatch_SeqI [OF b] rmatch_SeqI [OF c] rmatch_SeqI [OF d]
        rmatch_SeqI [OF e] rmatch_SeqI [OF f] rmatch_Star_self)
  then show ?thesis
    unfolding s by auto
qed

section \<open>Runs and requests\<close>

lemma trace_emit [simp]: "trace (emit e s) = trace s @ [e]"
  by (simp add: emit_def)

lemma world_emit [simp]: "world (emit e s) = world s"
  by (simp add: emit_def)

lemma calls_append [simp]: "calls (xs @ ys) = calls xs @ calls ys"
  by (induction xs rule: calls.induct) simp_all

lemma await_Inl [simp]: "await (Inl e, s) k = (Inl e, s)"
  by (simp add: await_def)

lemma await_Inr [simp]: "await (Inr x, s) k = k x s"
  by (simp add: await_def)

lemma request_fault:
  "fault (world s) c = Some e \<Longrightarrow> request c serve s = (Inl e, emit (Call c) s)"
  by (simp add: request_def)

lemma request_ok:
  "fault (world s) c = None \<Longrightarrow>
     request c serve s = (fst (serve (world s)), (emit (Call c) s)\<lparr>world := snd (serve (world s))\<rparr>)"
  by (simp add: request_def split: prod.splits)

lemma emit_same_world [simp]: "(emit e s)\<lparr>world := world s\<rparr> = emit e s"
  by (simp add: emit_def)

lemma run_eqI: "world s = w \<Longrightarrow> trace s = t \<Longrightarrow> s = \<lparr>world = w, trace = t\<rparr>"
  by (cases s) simp

section \<open>The paths of the notifier\<close>

lemmas notifier_events = ev_processing_def ev_fetch_def ev_skipping_def ev_already_def
  ev_linked_def ev_dry_run_def ev_posted_def ev_caught_def

lemma post_reminder_linked:
  "regex_test linked_issue_regex (body_of pr) \<Longrightarrow>
     post_reminder d r (authorLogin pr) (body_of pr) s = (Inr (), emit ev_linked s)"
  by (simp add: post_reminder_def ev_linked_def console_log_def)

lemma post_reminder_dry:
  "\<not> regex_test linked_issue_regex (body_of pr) \<Longrightarrow>
     post_reminder True r (authorLogin pr) (body_of pr) s =
       (Inr (), s\<lparr>trace := trace s @ ev_dry_run (reminder_of r pr)\<rparr>)"
  by (simp add: post_reminder_def reminder_of_def Let_def ev_dry_run_def console_log_def emit_def)

lemma post_reminder_fault:
  "\<not> regex_test linked_issue_regex (body_of pr) \<Longrightarrow>
   fault (world s) (Create_comment r (reminder_of r pr)) = Some e \<Longrightarrow>
     post_reminder False r (authorLogin pr) (body_of pr) s =
       (Inl e, emit (Call (Create_comment r (reminder_of r pr))) s)"
  by (simp add: post_reminder_def reminder_of_def Let_def createComment_def request_fault)

lemma post_reminder_ok:
  "\<not> regex_test linked_issue_regex (body_of pr) \<Longrightarrow>
   fault (world s) (Create_comment r (reminder_of r pr)) = None \<Longrightarrow>
     post_reminder False r (authorLogin pr) (body_of pr) s =
       (Inr (),
        \<lparr>world = add_comment r (reminder_of r pr) (world s),
         trace = trace s @ [Call (Create_comment r (reminder_of r pr)), ev_posted]\<rparr>)"
  by (simp add: post_reminder_def reminder_of_def Let_def createComment_def request_ok
      add_comment_def ev_posted_def console_log_def emit_def)

lemma check_and_post_bot:
  "bot_author pr \<Longrightarrow> check_and_post d r pr s = (Inr (), emit (ev_skipping pr) s)"
  by (simp add: check_and_post_def ev_skipping_def console_log_def)

lemma check_and_post_list_fault:
  "\<not> bot_author pr \<Longrightarrow> fault (world s) (List_comments r) = Some e \<Longrightarrow>
     check_and_post d r pr s = (Inl e, emit (Call (List_comments r)) s)"
  by (simp add: check_and_post_def listComments_def request_fault)

lemma check_and_post_marked:
  "\<not> bot_author pr \<Longrightarrow> fault (world s) (List_comments r) = None \<Longrightarrow> marked (world s) r \<Longrightarrow>
     check_and_post d r pr s = (Inr (), emit ev_already (emit (Call (List_comments r)) s))"
  by (simp add: check_and_post_def listComments_def request_ok marked_def ev_already_def
      console_log_def)

lemma check_and_post_unmarked:
  "\<not> bot_author pr \<Longrightarrow> fault (world s) (List_comments r) = None \<Longrightarrow> \<not> marked (world s) r \<Longrightarrow>
     check_and_post d r pr s =
       post_reminder d r (authorLogin pr) (body_of pr) (emit (Call (List_comments r)) s)"
  by (simp add: check_and_post_def listComments_def request_ok marked_def body_of_def)

lemma notifier_try_undetermined:
  "\<not> truthy_num prNumber \<Longrightarrow> notifier_try ev c prNumber s = (Inl no_pr_number, s)"
  by (cases prNumber) (simp_all add: notifier_try_def no_pr_number_def)

lemma notifier_try_fetch_fault:
  "payload_pull_request (payload c) = None \<Longrightarrow> n \<noteq> 0 \<Longrightarrow>
   fault (world s) (Pulls_get (repo_owner c, repo_repo c, n)) = Some e \<Longrightarrow>
     notifier_try ev c (Some n) s =
       (Inl e, s\<lparr>trace := trace s @ ev_processing n (isDryRun ev)
                                    # ev_fetch c (repo_owner c, repo_repo c, n)\<rparr>)"
  by (simp add: notifier_try_def prData_of_def pulls_get_def request_fault Let_def
      ev_processing_def ev_fetch_def isDryRun_def console_log_def emit_def)

lemma notifier_try_seen:
  assumes "n \<noteq> 0" and "pr_seen ev c (world s) = Some pr" and "prNumber_of ev c = Some n"
    and "payload_pull_request (payload c) = None \<longrightarrow>
           fault (world s) (Pulls_get (repo_owner c, repo_repo c, n)) = None"
  shows "notifier_try ev c (Some n) s =
           check_and_post (isDryRun ev) (repo_owner c, repo_repo c, n) pr
             (s\<lparr>trace := trace s @ ev_processing n (isDryRun ev)
                                  # ev_fetch c (repo_owner c, repo_repo c, n)\<rparr>)"
proof (cases "payload_pull_request (payload c)")
  case None
  with assms show ?thesis
    by (simp add: notifier_try_def prData_of_def pulls_get_def request_ok Let_def pr_seen_def
        ev_processing_def ev_fetch_def isDryRun_def console_log_def emit_def)
next
  case (Some p)
  with assms show ?thesis
    by (simp add: notifier_try_def prData_of_def Let_def pr_seen_def
        ev_processing_def ev_fetch_def isDryRun_def console_log_def emit_def)
qed

lemma notifier_returns:
  "notifier_try ev c (prNumber_of ev c) \<lparr>world = w, trace = []\<rparr> = (Inr (), s) \<Longrightarrow>
     notifier ev c w = (Inr (), s)"
  by (simp add: notifier_def)

lemma notifier_throws:
  "notifier_try ev c (prNumber_of ev c) \<lparr>world = w, trace = []\<rparr> = (Inl e, s) \<Longrightarrow>
     notifier ev c w = (Inl e, s\<lparr>trace := trace s @ ev_caught e ev c\<rparr>)"
  by (simp add: notifier_def ev_caught_def console_error_def emit_def)

lemma notifier_try_works_on:
  assumes "works_on ev c w n pr"
  shows "notifier_try ev c (prNumber_of ev c) \<lparr>world = w, trace = []\<rparr> =
           check_and_post (isDryRun ev) (ref_of c n) pr
             \<lparr>world = w, trace = ev_processing n (isDryRun ev) # ev_fetch c (ref_of c n)\<rparr>"
proof -
  from assms have n: "prNumber_of ev c = Some n" "n \<noteq> 0"
    and pr: "pr_seen ev c (world \<lparr>world = w, trace = []\<rparr>) = Some pr"
    and ok: "payload_pull_request (payload c) = None \<longrightarrow>
               fault (world \<lparr>world = w, trace = []\<rparr>) (Pulls_get (repo_owner c, repo_repo c, n)) = None"
    by (simp_all add: works_on_def ref_of_def)
  show ?thesis
    by (simp add: n(1) notifier_try_seen [OF n(2) pr n(1) ok] ref_of_def)
qed

lemma notifier_cases [case_names undetermined fetch_fault bot list_fault already linked dry_run create_fault posted]:
  obtains
    (undetermined) "\<not> truthy_num (prNumber_of ev c)"
      and "notifier ev c w = (Inl no_pr_number, \<lparr>world = w, trace = ev_caught no_pr_number ev c\<rparr>)"
  | (fetch_fault) n e where "prNumber_of ev c = Some n" and "n \<noteq> 0"
      and "payload_pull_request (payload c) = None"
      and "fault w (Pulls_get (ref_of c n)) = Some e"
      and "notifier ev c w =
             (Inl e, \<lparr>world = w,
                      trace = ev_processing n (isDryRun ev) # Call (Pulls_get (ref_of c n))
                              # ev_caught e ev c\<rparr>)"
  | (bot) n pr where "works_on ev c w n pr" and "bot_author pr"
      and "notifier ev c w =
             (Inr (), \<lparr>world = w,
                       trace = ev_processing n (isDryRun ev) # ev_fetch c (ref_of c n)
                               @ [ev_skipping pr]\<rparr>)"
  | (list_fault) n pr e where "works_on ev c w n pr" and "\<not> bot_author pr"
      and "fault w (List_comments (ref_of c n)) = Some e"
      and "notifier ev c w =
             (Inl e, \<lparr>world = w,
                      trace = ev_processing n (isDryRun ev) # ev_fetch c (ref_of c n)
                              @ Call (List_comments (ref_of c n)) # ev_caught e ev c\<rparr>)"
  | (already) n pr where "works_on ev c w n pr" and "\<not> bot_author pr"
      and "fault w (List_comments (ref_of c n)) = None" and "marked w (ref_of c n)"
      and "notifier ev c w =
             (Inr (), \<lparr>world = w,
                       trace = ev_processing n (isDryRun ev) # ev_fetch c (ref_of c n)
                               @ [Call (List_comments (ref_of c n)), ev_already]\<rparr>)"
  | (linked) n pr where "works_on ev c w n pr" and "\<not> bot_author pr"
      and "fault w (List_comments (ref_of c n)) = None" and "\<not> marked w (ref_of c n)"
      and "regex_test linked_issue_regex (body_of pr)"
      and "notifier ev c w =
             (Inr (), \<lparr>world = w,
                       trace = ev_processing n (isDryRun ev) # ev_fetch c (ref_of c n)
                               @ [Call (List_comments (ref_of c n)), ev_linked]\<rparr>)"
  | (dry_run) n pr where "works_on ev c w n pr" and "\<not> bot_author pr"
      and "fault w (List_comments (ref_of c n)) = None" and "\<not> marked w (ref_of c n)"
      and "\<not> regex_test linked_issue_regex (body_of pr)" and "isDryRun ev"
      and "notifier ev c w =
             (Inr (), \<lparr>world = w,
                       trace = ev_processing n (isDryRun ev) # ev_fetch c (ref_of c n)
                               @ Call (List_comments (ref_of c n))
                               # ev_dry_run (reminder_of (ref_of c n) pr)\<rparr>)"
  | (create_fault) n pr e where "works_on ev c w n pr" and "\<not> bot_author pr"
      and "fault w (List_comments (ref_of c n)) = None" and "\<not> marked w (ref_of c n)"
      and "\<not> regex_test linked_issue_regex (body_of pr)" and "\<not> isDryRun ev"
      and "fault w (Create_comment (ref_of c n) (reminder_of (ref_of c n) pr)) = Some e"
      and "notifier ev c w =
             (Inl e, \<lparr>world = w,
                      trace = ev_processing n (isDryRun ev) # ev_fetch c (ref_of c n)
                              @ Call (List_comments (ref_of c n))
                              # Call (Create_comment (ref_of c n) (reminder_of (ref_of c n) pr))
                              # ev_caught e ev c\<rparr>)"
  | (posted) n pr where "works_on ev c w n pr" and "\<not> bot_author pr"
      and "fault w (List_comments (ref_of c n)) = None" and "\<not> marked w (ref_of c n)"
      and "\<not> regex_test linked_issue_regex (body_of pr)" and "\<not> isDryRun ev"
      and "fault w (Create_comment (ref_of c n) (reminder_of (ref_of c n) pr)) = None"
      and "notifier ev c w =
             (Inr (), \<lparr>world = add_comment (ref_of c n) (reminder_of (ref_of c n) pr) w,
                       trace = ev_processing n (isDryRun ev) # ev_fetch c (ref_of c n)
                               @ [Call (List_comments (ref_of c n)),
                                  Call (Create_comment (ref_of c n) (reminder_of (ref_of c n) pr)),
                                  ev_posted]\<rparr>)"
proof (cases "truthy_num (prNumber_of ev c)")
  case False
  then have "notifier ev c w = (Inl no_pr_number, \<lparr>world = w, trace = ev_caught no_pr_number ev c\<rparr>)"
    by (simp add: notifier_throws [OF notifier_try_undetermined])
  with False show thesis by (rule undetermined)
next
  case True
  then obtain n where n: "prNumber_of ev c = Some n" "n \<noteq> 0"
    by (cases "prNumber_of ev c") simp_all
  let ?r = "ref_of c n" and ?d = "isDryRun ev"
  show thesis
  proof (cases "payload_pull_request (payload c) = None \<and> fault w (Pulls_get ?r) \<noteq> None")
    case True
    then obtain e where e: "payload_pull_request (payload c) = None" "fault w (Pulls_get ?r) = Some e"
      by auto
    have "notifier_try ev c (prNumber_of ev c) \<lparr>world = w, trace = []\<rparr> =
            (Inl e, \<lparr>world = w, trace = ev_processing n ?d # ev_fetch c ?r\<rparr>)"
      using e n by (simp add: notifier_try_fetch_fault ref_of_def)
    then have "notifier ev c w =
             (Inl e, \<lparr>world = w, trace = ev_processing n ?d # Call (Pulls_get ?r) # ev_caught e ev c\<rparr>)"
      using e by (simp add: notifier_throws ev_fetch_def)
    with n e show thesis by (rule fetch_fault)
  next
    case False
    obtain pr where "pr_seen ev c w = Some pr"
      using n by (cases "payload_pull_request (payload c)") (simp_all add: pr_seen_def)
    with False n have wo: "works_on ev c w n pr"
      by (auto simp: works_on_def)
    let ?s1 = "\<lparr>world = w, trace = ev_processing n ?d # ev_fetch c ?r\<rparr>"
    let ?s2 = "\<lparr>world = w, trace = ev_processing n ?d # ev_fetch c ?r @ [Call (List_comments ?r)]\<rparr>"
    note ntry = notifier_try_works_on [OF wo]
    have s2: "emit (Call (List_comments ?r)) ?s1 = ?s2"
      by (simp add: emit_def)
    show thesis
    proof (cases "bot_author pr")
      case True
      then have "notifier ev c w =
           (Inr (), \<lparr>world = w, trace = ev_processing n ?d # ev_fetch c ?r @ [ev_skipping pr]\<rparr>)"
        by (simp add: notifier_returns ntry check_and_post_bot emit_def)
      with wo True show thesis by (rule bot)
    next
      case nb: False
      show thesis
      proof (cases "fault w (List_comments ?r)")
        case (Some e)
        with nb have "notifier ev c w =
             (Inl e, \<lparr>world = w, trace = ev_processing n ?d # ev_fetch c ?r
                              @ Call (List_comments ?r) # ev_caught e ev c\<rparr>)"
          by (simp add: notifier_throws ntry check_and_post_list_fault emit_def)
        with wo nb Some show thesis by (rule list_fault)
      next
        case lf: None
        show thesis
        proof (cases "marked w ?r")
          case True
          with nb lf have "notifier ev c w =
             (Inr (), \<lparr>world = w, trace = ev_processing n ?d # ev_fetch c ?r
                               @ [Call (List_comments ?r), ev_already]\<rparr>)"
            by (simp add: notifier_returns ntry check_and_post_marked emit_def)
          with wo nb lf True show thesis by (rule already)
        next
          case nm: False
          with nb lf have cp: "notifier_try ev c (prNumber_of ev c) \<lparr>world = w, trace = []\<rparr> =
               post_reminder ?d ?r (authorLogin pr) (body_of pr) ?s2"
            by (simp add: ntry check_and_post_unmarked s2)
          show thesis
          proof (cases "regex_test linked_issue_regex (body_of pr)")
            case True
            then have "notifier ev c w =
             (Inr (), \<lparr>world = w, trace = ev_processing n ?d # ev_fetch c ?r
                               @ [Call (List_comments ?r), ev_linked]\<rparr>)"
              by (simp add: notifier_returns cp post_reminder_linked emit_def)
            with wo nb lf nm True show thesis by (rule linked)
          next
            case nl: False
            show thesis
            proof (cases ?d)
              case True
              with nl have "notifier ev c w =
             (Inr (), \<lparr>world = w, trace = ev_processing n ?d # ev_fetch c ?r
                               @ Call (List_comments ?r) # ev_dry_run (reminder_of ?r pr)\<rparr>)"
                by (simp add: notifier_returns cp post_reminder_dry)
              with wo nb lf nm nl True show thesis by (rule dry_run)
            next
              case nd: False
              show thesis
              proof (cases "fault w (Create_comment ?r (reminder_of ?r pr))")
                case (Some e)
                with nl nd have "notifier ev c w =
             (Inl e, \<lparr>world = w, trace = ev_processing n ?d # ev_fetch c ?r
                              @ Call (List_comments ?r)
                              # Call (Create_comment ?r (reminder_of ?r pr)) # ev_caught e ev c\<rparr>)"
                  by (simp add: notifier_throws cp post_reminder_fault emit_def)
                with wo nb lf nm nl nd Some show thesis by (rule create_fault)
              next
                case None
                with nl nd have "notifier ev c w =
             (Inr (), \<lparr>world = add_comment ?r (reminder_of ?r pr) w,
                       trace = ev_processing n ?d # ev_fetch c ?r
                               @ [Call (List_comments ?r),
                                  Call (Create_comment ?r (reminder_of ?r pr)), ev_posted]\<rparr>)"
                  by (simp add: notifier_returns cp post_reminder_ok)
                with wo nb lf nm nl nd None show thesis by (rule posted)
              qed
            qed
          qed
        qed
      qed
    qed
  qed
qed

section \<open>Strings and patterns\<close>

lemma str_includes_sublist: "str_includes s m \<longleftrightarrow> sublist m s"
  by (induction s) (simp_all add: sublist_Cons_right)

lemma str_includes_prefix: "str_includes (m @ rest) m"
  by (simp add: str_includes_sublist prefix_imp_sublist)

lemma commentBody_marker: "str_includes (commentBody owner repo a) LINKBOT_MARKER"
  by (simp add: commentBody_def str_includes_prefix)

lemma has_marker_reminder:
  "has_marker LINKBOT_MARKER \<lparr>comment_body = Some (reminder_of r pr), comment_user = u\<rparr>"
  by (simp add: has_marker_def reminder_of_def commentBody_marker)

lemma list_ex_take: "list_ex P (take k xs) \<Longrightarrow> list_ex P xs"
  by (auto simp: list_ex_iff dest: in_set_takeD)

section \<open>Requests of the notifier's events\<close>

lemma calls_ev_fetch:
  "calls (ev_fetch c r) = (case payload_pull_request (payload c) of None \<Rightarrow> [Pulls_get r] | Some _ \<Rightarrow> [])"
  by (simp add: ev_fetch_def split: option.splits)

lemma calls_logs [simp]:
  "calls (ev_processing n d # t) = calls t"
  "calls (ev_skipping pr # t) = calls t"
  "calls (ev_already # t) = calls t"
  "calls (ev_linked # t) = calls t"
  "calls (ev_posted # t) = calls t"
  "calls (ev_dry_run b) = []"
  "calls (ev_caught e ev c) = []"
  by (simp_all add: notifier_events)

lemma mutating_ev_fetch [simp]: "list_all (\<lambda>a. \<not> mutating a) (calls (ev_fetch c r))"
  by (simp add: calls_ev_fetch split: option.splits)

lemma works_on_unique:
  "works_on ev c w n pr \<Longrightarrow> pr_seen ev c w = Some pr' \<Longrightarrow> pr' = pr"
  by (simp add: works_on_def)

lemma prNumber_of_env: "PR_NUMBER ev' = PR_NUMBER ev \<Longrightarrow> prNumber_of ev' c = prNumber_of ev c"
  by (simp add: prNumber_of_def)

lemma works_on_env:
  assumes "works_on ev c w n pr" and "PR_NUMBER ev' = PR_NUMBER ev"
  shows "works_on ev' c w n pr"
proof -
  have "prNumber_of ev' c = prNumber_of ev c"
    using assms(2) by (rule prNumber_of_env)
  with assms(1) show ?thesis
    by (simp add: works_on_def pr_seen_def split: option.splits)
qed

lemma pr_seen_add_comment [simp]: "pr_seen ev c (add_comment r b w) = pr_seen ev c w"
  by (simp add: pr_seen_def add_comment_def split: option.splits)

lemma actor_add_comment [simp]: "actor (add_comment r b w) = actor w"
  by (simp add: add_comment_def)

lemma fault_add_comment [simp]: "fault (add_comment r b w) = fault w"
  by (simp add: add_comment_def)

lemma works_on_add_comment [simp]: "works_on ev c (add_comment r b w) n pr = works_on ev c w n pr"
  by (simp add: works_on_def)

lemma notifier_dry_run:
  assumes "works_on ev c w n pr" and "\<not> bot_author pr"
    and "fault w (List_comments (ref_of c n)) = None" and "\<not> marked w (ref_of c n)"
    and "\<not> regex_test linked_issue_regex (body_of pr)" and "isDryRun ev"
  shows "notifier ev c w =
           (Inr (), \<lparr>world = w,
                     trace = ev_processing n (isDryRun ev) # ev_fetch c (ref_of c n)
                             @ Call (List_comments (ref_of c n))
                             # ev_dry_run (reminder_of (ref_of c n) pr)\<rparr>)"
  using assms(2-)
  by (simp add: notifier_returns notifier_try_works_on [OF assms(1)] check_and_post_unmarked
      post_reminder_dry emit_def)

lemma notifier_posts:
  assumes "works_on ev c w n pr" and "\<not> bot_author pr"
    and "fault w (List_comments (ref_of c n)) = None" and "\<not> marked w (ref_of c n)"
    and "\<not> regex_test linked_issue_regex (body_of pr)" and "\<not> isDryRun ev"
    and "fault w (Create_comment (ref_of c n) (reminder_of (ref_of c n) pr)) = None"
  shows "notifier ev c w =
           (Inr (), \<lparr>world = add_comment (ref_of c n) (reminder_of (ref_of c n) pr) w,
                     trace = ev_processing n (isDryRun ev) # ev_fetch c (ref_of c n)
                             @ [Call (List_comments (ref_of c n)),
                                Call (Create_comment (ref_of c n) (reminder_of (ref_of c n) pr)),
                                ev_posted]\<rparr>)"
  using assms(2-)
  by (simp add: notifier_returns notifier_try_works_on [OF assms(1)] check_and_post_unmarked
      post_reminder_ok emit_def)

lemma notifier_world [case_names same post]:
  obtains (same) "world (snd (notifier ev c w)) = w"
  | (post) n pr where "works_on ev c w n pr" and "\<not> bot_author pr" and "\<not> marked w (ref_of c n)"
      and "\<not> regex_test linked_issue_regex (body_of pr)" and "\<not> isDryRun ev"
      and "world (snd (notifier ev c w)) = add_comment (ref_of c n) (reminder_of (ref_of c n) pr) w"
proof (cases rule: notifier_cases [of ev c w])
  case (posted n pr)
  from posted(8) have "world (snd (notifier ev c w)) = add_comment (ref_of c n) (reminder_of (ref_of c n) pr) w"
    by simp
  with posted(1,2,4,5,6) show thesis by (rule post)
qed (simp_all add: same)

lemma comments_add_comment:
  "comments (add_comment r b w) r' =
     (if r' = r then comments w r @ [\<lparr>comment_body = Some b, comment_user = Some (actor w)\<rparr>]
      else comments w r')"
  by (simp add: add_comment_def)

lemma notifier_keeps_marked:
  assumes "marked w r"
  shows "comments (world (snd (notifier ev c w))) r = comments w r"
proof (cases rule: notifier_world [of ev c w])
  case same
  then show ?thesis by simp
next
  case (post n pr)
  with assms have "r \<noteq> ref_of c n" by blast
  with post(6) show ?thesis by (simp add: comments_add_comment)
qed

lemma notifier_runs_keep_marked:
  "marked w r \<Longrightarrow> comments (notifier_runs later w) r = comments w r"
proof (induction later arbitrary: w)
  case Nil
  then show ?case by simp
next
  case (Cons ec later)
  let ?w1 = "world (snd (notifier (fst ec) (snd ec) w))"
  have keep: "comments ?w1 r = comments w r"
    using Cons.prems by (rule notifier_keeps_marked)
  with Cons.prems have "marked ?w1 r"
    by (simp add: marked_def)
  then have "comments (notifier_runs later ?w1) r = comments ?w1 r"
    by (rule Cons.IH)
  with keep show ?case by simp
qed

lemma marked_after_reminder:
  assumes "length (comments w r) < default_per_page"
  shows "marked (add_comment r (reminder_of r pr) w) r"
  using assms by (simp add: marked_def comments_add_comment has_marker_reminder)

lemma unmarked_thread: "\<not> list_ex (has_marker LINKBOT_MARKER) (comments w r) \<Longrightarrow> \<not> marked w r"
  unfolding marked_def by (blast dest: list_ex_take)

lemma notifier_repeats_beyond_first_page:
  assumes "works_on ev c w n pr" and "\<not> bot_author pr" and "\<not> isDryRun ev"
    and "\<not> regex_test linked_issue_regex (body_of pr)"
    and "\<not> list_ex (has_marker LINKBOT_MARKER) (comments w (ref_of c n))"
    and "default_per_page \<le> length (comments w (ref_of c n))"
    and "fault w (List_comments (ref_of c n)) = None"
    and "fault w (Create_comment (ref_of c n) (reminder_of (ref_of c n) pr)) = None"
  shows "comments (notifier_runs [(ev, c), (ev, c)] w) (ref_of c n) =
           comments w (ref_of c n)
           @ [\<lparr>comment_body = Some (reminder_of (ref_of c n) pr), comment_user = Some (actor w)\<rparr>,
              \<lparr>comment_body = Some (reminder_of (ref_of c n) pr), comment_user = Some (actor w)\<rparr>]"
proof -
  let ?r = "ref_of c n"
  let ?w1 = "add_comment ?r (reminder_of ?r pr) w"
  have um: "\<not> marked w ?r"
    using assms(5) by (rule unmarked_thread)
  have first: "world (snd (notifier ev c w)) = ?w1"
    using assms(1-4,7,8) um by (simp add: notifier_posts)
  have wo: "works_on ev c ?w1 n pr"
    using assms(1) by simp
  have um1: "\<not> marked ?w1 ?r"
    using um assms(6) by (simp add: marked_def comments_add_comment)
  have "world (snd (notifier ev c ?w1)) = add_comment ?r (reminder_of ?r pr) ?w1"
    using wo assms(2-4,7,8) um1 by (simp add: notifier_posts)
  with first show ?thesis
    by (simp add: comments_add_comment)
qed

lemma fixes12_anywhere:
  assumes "pre = [] \<or> \<not> is_word (last pre)"
  shows "regex_test linked_issue_regex (pre @ str ''Fixes #12'' @ post)"
proof -
  let ?pv = "if pre = [] then None else Some (last pre)"
  have "\<not> word_before (?pv, [])"
    using assms by (auto simp: word_before_def)
  then have "rmatch linked_issue_regex (?pv, str ''Fixes #12'' @ post) \<noteq> []"
    by (rule fixes12_match)
  then have "search linked_issue_regex None (pre @ str ''Fixes #12'' @ post)"
    by (rule search_append)
  then show ?thesis by (simp add: regex_test_def)
qed

section \<open>The paths of the unassign handler\<close>

lemmas unassign_events = ev_snapshot_def ev_invalid_def ev_no_request_def ev_detected_def
  ev_not_assignee_def ev_repeat_def ev_proceeding_def ev_completed_def ev_unassign_error_def

lemma fault_drop_assignees [simp]: "fault (drop_assignees r us w) = fault w"
  by (simp add: drop_assignees_def)

lemma comments_drop_assignees [simp]: "comments (drop_assignees r us w) = comments w"
  by (simp add: drop_assignees_def)

lemma unassign_act_history_fault:
  "fault (world s) (Paginate_list_comments r 100) = Some e \<Longrightarrow>
     unassign_act r u s = (Inl e, emit (Call (Paginate_list_comments r 100)) s)"
  by (simp add: unassign_act_def paginate_listComments_def request_fault)

lemma unassign_act_repeat:
  "fault (world s) (Paginate_list_comments r 100) = None \<Longrightarrow> unassigned_before (world s) r u \<Longrightarrow>
     unassign_act r u s =
       (Inr (), s\<lparr>trace := trace s @ [Call (Paginate_list_comments r 100), ev_repeat u (snd (snd r))]\<rparr>)"
  by (simp add: unassign_act_def paginate_listComments_def request_ok unassigned_before_def
      ev_repeat_def console_log_def emit_def)

lemma unassign_act_remove_fault:
  "fault (world s) (Paginate_list_comments r 100) = None \<Longrightarrow> \<not> unassigned_before (world s) r u \<Longrightarrow>
   fault (world s) (Remove_assignees r [u]) = Some e \<Longrightarrow>
     unassign_act r u s =
       (Inl e, s\<lparr>trace := trace s @ [Call (Paginate_list_comments r 100), ev_proceeding u (snd (snd r)),
                                     Call (Remove_assignees r [u])]\<rparr>)"
  by (simp add: unassign_act_def paginate_listComments_def removeAssignees_def request_ok
      request_fault unassigned_before_def ev_proceeding_def console_log_def emit_def Let_def)

lemma unassign_act_comment_fault:
  "fault (world s) (Paginate_list_comments r 100) = None \<Longrightarrow> \<not> unassigned_before (world s) r u \<Longrightarrow>
   fault (world s) (Remove_assignees r [u]) = None \<Longrightarrow>
   fault (world s) (Create_comment r (confirmation_body u)) = Some e \<Longrightarrow>
     unassign_act r u s =
       (Inl e, \<lparr>world = drop_assignees r [u] (world s),
                trace = trace s @ [Call (Paginate_list_comments r 100), ev_proceeding u (snd (snd r)),
                                   Call (Remove_assignees r [u]),
                                   Call (Create_comment r (confirmation_body u))]\<rparr>)"
  by (simp add: unassign_act_def paginate_listComments_def removeAssignees_def createComment_def
      request_ok request_fault unassigned_before_def ev_proceeding_def console_log_def emit_def
      Let_def drop_assignees_def confirmation_body_def)

lemma unassign_act_done:
  "fault (world s) (Paginate_list_comments r 100) = None \<Longrightarrow> \<not> unassigned_before (world s) r u \<Longrightarrow>
   fault (world s) (Remove_assignees r [u]) = None \<Longrightarrow>
   fault (world s) (Create_comment r (confirmation_body u)) = None \<Longrightarrow>
     unassign_act r u s =
       (Inr (), \<lparr>world = add_comment r (confirmation_body u) (drop_assignees r [u] (world s)),
                 trace = trace s @ [Call (Paginate_list_comments r 100), ev_proceeding u (snd (snd r)),
                                    Call (Remove_assignees r [u]),
                                    Call (Create_comment r (confirmation_body u)),
                                    ev_completed u (snd (snd r))]\<rparr>)"
  by (simp add: unassign_act_def paginate_listComments_def removeAssignees_def createComment_def
      request_ok unassigned_before_def ev_proceeding_def ev_completed_def console_log_def emit_def
      Let_def drop_assignees_def add_comment_def confirmation_body_def)

lemma unassign_try_invalid:
  "\<not> isValidUnassignContext (payload_issue (payload c)) (payload_comment (payload c)) \<Longrightarrow>
     unassign_try c s = (Inr (), s\<lparr>trace := trace s @ [ev_snapshot c, ev_invalid c]\<rparr>)"
  by (simp add: unassign_try_def Let_def ev_snapshot_def ev_invalid_def console_log_def emit_def)

lemma unassign_try_no_request:
  "isValidUnassignContext (payload_issue (payload c)) (payload_comment (payload c)) \<Longrightarrow>
   \<not> commentRequestsUnassign (Option.bind (payload_comment (payload c)) comment_body) \<Longrightarrow>
     unassign_try c s = (Inr (), s\<lparr>trace := trace s @ [ev_snapshot c, ev_no_request]\<rparr>)"
  by (simp add: unassign_try_def Let_def ev_snapshot_def ev_no_request_def console_log_def emit_def)

lemma requests_by_fields:
  assumes "requests_by c i n u"
  shows "isValidUnassignContext (Some i) (payload_comment (payload c))"
    and "commentRequestsUnassign (Option.bind (payload_comment (payload c)) comment_body)"
    and "payload_issue (payload c) = Some i" and "issueNumber_of c = Some n"
    and "commenter_of c = Some u"
  using assms by (auto simp: requests_by_def issueNumber_of_def)

lemma unassign_try_not_assignee:
  assumes "requests_by c i n u" and "\<not> isCurrentAssignee i u"
  shows "unassign_try c s =
       (Inr (), s\<lparr>trace := trace s @ [ev_snapshot c, ev_detected u, ev_not_assignee i u]\<rparr>)"
  using assms(2)
  by (simp add: requests_by_fields [OF assms(1)] unassign_try_def Let_def ev_snapshot_def
      ev_detected_def ev_not_assignee_def console_log_def emit_def)

lemma unassign_try_assignee:
  assumes "requests_by c i n u" and "isCurrentAssignee i u"
  shows "unassign_try c s =
       unassign_act (ref_of c n) u (s\<lparr>trace := trace s @ [ev_snapshot c, ev_detected u]\<rparr>)"
  using assms(2)
  by (simp add: requests_by_fields [OF assms(1)] unassign_try_def Let_def ev_snapshot_def
      ev_detected_def console_log_def emit_def ref_of_def)

lemma valid_context_fields:
  assumes "isValidUnassignContext (payload_issue (payload c)) (payload_comment (payload c))"
  obtains i n u where "payload_issue (payload c) = Some i" and "issue_number i = Some n"
    and "commenter_of c = Some u"
proof -
  from assms have "truthy_num (Option.bind (payload_issue (payload c)) issue_number)"
    and "truthy_str (commenter_of c)"
    by (simp_all add: isValidUnassignContext_def commenter_of_def split: if_splits)
  then show thesis
    by (cases "payload_issue (payload c)"; cases "commenter_of c")
       (auto intro: that elim: truthy_num.elims)
qed

lemma unassign_returns:
  "unassign_try c \<lparr>world = w, trace = []\<rparr> = (Inr (), s) \<Longrightarrow> unassign c w = (Inr (), s)"
  by (simp add: unassign_def)

lemma unassign_throws:
  "unassign_try c \<lparr>world = w, trace = []\<rparr> = (Inl e, s) \<Longrightarrow>
     unassign c w = (Inl e, s\<lparr>trace := trace s @ [ev_unassign_error e c]\<rparr>)"
  by (simp add: unassign_def ev_unassign_error_def console_error_def emit_def)

lemma unassign_invalid:
  assumes "\<not> isValidUnassignContext (payload_issue (payload c)) (payload_comment (payload c))"
  shows "unassign c w = (Inr (), \<lparr>world = w, trace = [ev_snapshot c, ev_invalid c]\<rparr>)"
  by (simp add: unassign_returns unassign_try_invalid [OF assms])

lemma unassign_no_request:
  assumes "isValidUnassignContext (payload_issue (payload c)) (payload_comment (payload c))"
    and "\<not> commentRequestsUnassign (Option.bind (payload_comment (payload c)) comment_body)"
  shows "unassign c w = (Inr (), \<lparr>world = w, trace = [ev_snapshot c, ev_no_request]\<rparr>)"
  by (simp add: unassign_returns unassign_try_no_request [OF assms])

lemma unassign_not_assignee:
  assumes "requests_by c i n u" and "\<not> isCurrentAssignee i u"
  shows "unassign c w =
           (Inr (), \<lparr>world = w, trace = [ev_snapshot c, ev_detected u, ev_not_assignee i u]\<rparr>)"
  by (simp add: unassign_returns unassign_try_not_assignee [OF assms])

lemma unassign_history_fault:
  assumes "requests_by c i n u" and "isCurrentAssignee i u"
    and "fault w (Paginate_list_comments (ref_of c n) 100) = Some e"
  shows "unassign c w =
           (Inl e, \<lparr>world = w,
                    trace = [ev_snapshot c, ev_detected u,
                             Call (Paginate_list_comments (ref_of c n) 100),
                             ev_unassign_error e c]\<rparr>)"
  using assms(3)
  by (simp add: unassign_throws unassign_try_assignee [OF assms(1,2)] unassign_act_history_fault
      emit_def)

lemma unassign_repeat:
  assumes "requests_by c i n u" and "isCurrentAssignee i u"
    and "fault w (Paginate_list_comments (ref_of c n) 100) = None"
    and "unassigned_before w (ref_of c n) u"
  shows "unassign c w =
           (Inr (), \<lparr>world = w,
                     trace = [ev_snapshot c, ev_detected u,
                              Call (Paginate_list_comments (ref_of c n) 100),
                              ev_repeat u n]\<rparr>)"
  using assms(3-)
  by (simp add: unassign_returns unassign_try_assignee [OF assms(1,2)] unassign_act_repeat
      ref_of_def)

lemma unassign_remove_fault:
  assumes "requests_by c i n u" and "isCurrentAssignee i u"
    and "fault w (Paginate_list_comments (ref_of c n) 100) = None"
    and "\<not> unassigned_before w (ref_of c n) u"
    and "fault w (Remove_assignees (ref_of c n) [u]) = Some e"
  shows "unassign c w =
           (Inl e, \<lparr>world = w,
                    trace = [ev_snapshot c, ev_detected u,
                             Call (Paginate_list_comments (ref_of c n) 100),
                             ev_proceeding u n,
                             Call (Remove_assignees (ref_of c n) [u]),
                             ev_unassign_error e c]\<rparr>)"
  using assms(3-)
  by (simp add: unassign_throws unassign_try_assignee [OF assms(1,2)] unassign_act_remove_fault
      ref_of_def)

lemma unassign_comment_fault:
  assumes "requests_by c i n u" and "isCurrentAssignee i u"
    and "fault w (Paginate_list_comments (ref_of c n) 100) = None"
    and "\<not> unassigned_before w (ref_of c n) u"
    and "fault w (Remove_assignees (ref_of c n) [u]) = None"
    and "fault w (Create_comment (ref_of c n) (confirmation_body u)) = Some e"
  shows "unassign c w =
           (Inl e, \<lparr>world = drop_assignees (ref_of c n) [u] w,
                    trace = [ev_snapshot c, ev_detected u,
                             Call (Paginate_list_comments (ref_of c n) 100),
                             ev_proceeding u n,
                             Call (Remove_assignees (ref_of c n) [u]),
                             Call (Create_comment (ref_of c n) (confirmation_body u)),
                             ev_unassign_error e c]\<rparr>)"
  using assms(3-)
  by (simp add: unassign_throws unassign_try_assignee [OF assms(1,2)] unassign_act_comment_fault
      ref_of_def)

lemma unassign_done:
  assumes "requests_by c i n u" and "isCurrentAssignee i u"
    and "fault w (Paginate_list_comments (ref_of c n) 100) = None"
    and "\<not> unassigned_before w (ref_of c n) u"
    and "fault w (Remove_assignees (ref_of c n) [u]) = None"
    and "fault w (Create_comment (ref_of c n) (confirmation_body u)) = None"
  shows "unassign c w =
           (Inr (), \<lparr>world = add_comment (ref_of c n) (confirmation_body u)
                               (drop_assignees (ref_of c n) [u] w),
                     trace = [ev_snapshot c, ev_detected u,
                              Call (Paginate_list_comments (ref_of c n) 100),
                              ev_proceeding u n,
                              Call (Remove_assignees (ref_of c n) [u]),
                              Call (Create_comment (ref_of c n) (confirmation_body u)),
                              ev_completed u n]\<rparr>)"
  using assms(3-)
  by (simp add: unassign_returns unassign_try_assignee [OF assms(1,2)] unassign_act_done
      ref_of_def)

lemma unassign_cases [case_names invalid no_request not_assignee history_fault repeated remove_fault comment_fault performed]:
  obtains
    (invalid) "\<not> isValidUnassignContext (payload_issue (payload c)) (payload_comment (payload c))"
  | (no_request) "isValidUnassignContext (payload_issue (payload c)) (payload_comment (payload c))"
      and "\<not> commentRequestsUnassign (Option.bind (payload_comment (payload c)) comment_body)"
  | (not_assignee) i n u where "requests_by c i n u" and "\<not> isCurrentAssignee i u"
  | (history_fault) i n u e where "requests_by c i n u" and "isCurrentAssignee i u"
      and "fault w (Paginate_list_comments (ref_of c n) 100) = Some e"
  | (repeated) i n u where "requests_by c i n u" and "isCurrentAssignee i u"
      and "fault w (Paginate_list_comments (ref_of c n) 100) = None"
      and "unassigned_before w (ref_of c n) u"
  | (remove_fault) i n u e where "requests_by c i n u" and "isCurrentAssignee i u"
      and "fault w (Paginate_list_comments (ref_of c n) 100) = None"
      and "\<not> unassigned_before w (ref_of c n) u"
      and "fault w (Remove_assignees (ref_of c n) [u]) = Some e"
  | (comment_fault) i n u e where "requests_by c i n u" and "isCurrentAssignee i u"
      and "fault w (Paginate_list_comments (ref_of c n) 100) = None"
      and "\<not> unassigned_before w (ref_of c n) u"
      and "fault w (Remove_assignees (ref_of c n) [u]) = None"
      and "fault w (Create_comment (ref_of c n) (confirmation_body u)) = Some e"
  | (performed) i n u where "requests_by c i n u" and "isCurrentAssignee i u"
      and "fault w (Paginate_list_comments (ref_of c n) 100) = None"
      and "\<not> unassigned_before w (ref_of c n) u"
      and "fault w (Remove_assignees (ref_of c n) [u]) = None"
      and "fault w (Create_comment (ref_of c n) (confirmation_body u)) = None"
proof (cases "isValidUnassignContext (payload_issue (payload c)) (payload_comment (payload c))")
  case False
  then show thesis by (rule invalid)
next
  case valid: True
  show thesis
  proof (cases "commentRequestsUnassign (Option.bind (payload_comment (payload c)) comment_body)")
    case False
    with valid show thesis by (rule no_request)
  next
    case True
    from valid obtain i n u where "payload_issue (payload c) = Some i" "issue_number i = Some n"
      "commenter_of c = Some u"
      by (rule valid_context_fields)
    with valid True have rq: "requests_by c i n u"
      by (simp add: requests_by_def)
    show thesis
    proof (cases "isCurrentAssignee i u")
      case False
      with rq show thesis by (rule not_assignee)
    next
      case asg: True
      show thesis
      proof (cases "fault w (Paginate_list_comments (ref_of c n) 100)")
        case (Some e)
        with rq asg show thesis by (rule history_fault)
      next
        case hist: None
        show thesis
        proof (cases "unassigned_before w (ref_of c n) u")
          case True
          with rq asg hist show thesis by (rule repeated)
        next
          case first: False
          show thesis
          proof (cases "fault w (Remove_assignees (ref_of c n) [u])")
            case (Some e)
            with rq asg hist first show thesis by (rule remove_fault)
          next
            case rem: None
            show thesis
            proof (cases "fault w (Create_comment (ref_of c n) (confirmation_body u))")
              case (Some e)
              with rq asg hist first rem show thesis by (rule comment_fault)
            next
              case None
              with rq asg hist first rem show thesis by (rule performed)
            qed
          qed
        qed
      qed
    qed
  qed
qed

lemma calls_unassign_logs [simp]:
  "calls (ev_snapshot c # t) = calls t"
  "calls (ev_invalid c # t) = calls t"
  "calls (ev_no_request # t) = calls t"
  "calls (ev_detected u # t) = calls t"
  "calls (ev_not_assignee i u # t) = calls t"
  "calls (ev_repeat u n # t) = calls t"
  "calls (ev_proceeding u n # t) = calls t"
  "calls (ev_completed u n # t) = calls t"
  "calls (ev_unassign_error e c # t) = calls t"
  by (simp_all add: unassign_events)

lemma requests_by_unique:
  assumes "requests_by c i n u" and "requests_by c i' n' u'"
  shows "i' = i" and "n' = n" and "u' = u"
  using assms by (auto simp: requests_by_def)



lemma last_events_append: "length ys = k \<Longrightarrow> last_events k (xs @ ys) = ys"
  by (simp add: last_events_def)

lemma notifier_error_logged:
  assumes "fst (notifier ev c w) = Inl e"
  shows "last_events 3 (trace (snd (notifier ev c w))) = ev_caught e ev c"
proof -
  obtain res s where t: "notifier_try ev c (prNumber_of ev c) \<lparr>world = w, trace = []\<rparr> = (res, s)"
    by (cases "notifier_try ev c (prNumber_of ev c) \<lparr>world = w, trace = []\<rparr>")
  show ?thesis
  proof (cases res)
    case (Inl e')
    with t have "notifier ev c w = (Inl e', s\<lparr>trace := trace s @ ev_caught e' ev c\<rparr>)"
      by (simp add: notifier_throws)
    with assms show ?thesis
      by (simp add: last_events_append ev_caught_def)
  next
    case (Inr x)
    with t assms show ?thesis by (simp add: notifier_returns)
  qed
qed

lemma unassign_error_logged:
  assumes "fst (unassign c w) = Inl e"
  shows "last_events 1 (trace (snd (unassign c w))) = [ev_unassign_error e c]"
proof -
  obtain res s where t: "unassign_try c \<lparr>world = w, trace = []\<rparr> = (res, s)"
    by (cases "unassign_try c \<lparr>world = w, trace = []\<rparr>")
  show ?thesis
  proof (cases res)
    case (Inl e')
    with t have "unassign c w = (Inl e', s\<lparr>trace := trace s @ [ev_unassign_error e' c]\<rparr>)"
      by (simp add: unassign_throws)
    with assms show ?thesis
      by (simp add: last_events_append)
  next
    case (Inr x)
    with t assms show ?thesis by (simp add: unassign_returns)
  qed
qed

lemma works_on_fetch_ok:
  "works_on ev c w n pr \<Longrightarrow> a \<in> set (calls (ev_fetch c (ref_of c n))) \<Longrightarrow> fault w a = None"
  by (auto simp: works_on_def calls_ev_fetch split: option.splits)

lemma works_on_truthy: "works_on ev c w n pr \<Longrightarrow> truthy_num (prNumber_of ev c)"
  by (simp add: works_on_def)

lemma notifier_throws_iff:
  "fst (notifier ev c w) = Inl e \<longleftrightarrow>
     (\<not> truthy_num (prNumber_of ev c) \<and> e = no_pr_number)
     \<or> (\<exists>a \<in> set (calls (trace (snd (notifier ev c w)))). fault w a = Some e)"
proof (cases rule: notifier_cases [of ev c w])
  case undetermined
  then show ?thesis by auto
next
  case (fetch_fault n e')
  then show ?thesis by auto
next
  case (bot n pr)
  then show ?thesis by (auto dest: works_on_fetch_ok works_on_truthy)
next
  case (list_fault n pr e')
  then show ?thesis by (auto dest: works_on_fetch_ok works_on_truthy)
next
  case (already n pr)
  then show ?thesis by (auto dest: works_on_fetch_ok works_on_truthy)
next
  case (linked n pr)
  then show ?thesis by (auto dest: works_on_fetch_ok works_on_truthy)
next
  case (dry_run n pr)
  then show ?thesis by (auto dest: works_on_fetch_ok works_on_truthy)
next
  case (create_fault n pr e')
  then show ?thesis by (auto dest: works_on_fetch_ok works_on_truthy)
next
  case (posted n pr)
  then show ?thesis by (auto dest: works_on_fetch_ok works_on_truthy)
qed

lemma unassign_throws_iff:
  "fst (unassign c w) = Inl e \<longleftrightarrow>
     (\<exists>a \<in> set (calls (trace (snd (unassign c w)))). fault w a = Some e)"
proof (cases rule: unassign_cases [where c = c and w = w])
  case invalid
  then show ?thesis by (simp add: unassign_invalid)
next
  case no_request
  then show ?thesis by (simp add: unassign_no_request)
next
  case (not_assignee i n u)
  then show ?thesis by (simp add: unassign_not_assignee)
next
  case (history_fault i n u e')
  then show ?thesis by (auto simp: unassign_history_fault)
next
  case (repeated i n u)
  then show ?thesis by (simp add: unassign_repeat)
next
  case (remove_fault i n u e')
  then show ?thesis by (auto simp: unassign_remove_fault)
next
  case (comment_fault i n u e')
  then show ?thesis by (auto simp: unassign_comment_fault)
next
  case (performed i n u)
  then show ?thesis by (simp add: unassign_done)
qed

lemma fault_assignees [simp]: "fault (w\<lparr>assignees := A\<rparr>) = fault w"
  by simp

lemma unassigned_before_assignees [simp]:
  "unassigned_before (w\<lparr>assignees := A\<rparr>) r u = unassigned_before w r u"
  by (simp add: unassigned_before_def)

section \<open>The sample events\<close>

lemma ref_of_pr_event [simp]: "ref_of (pr_event pr) n = repo_ref n"
  by (simp add: ref_of_def pr_event_def repo_ref_def)

lemma ref_of_comment_event [simp]: "ref_of (comment_event st as a b) n = repo_ref n"
  by (simp add: ref_of_def comment_event_def repo_ref_def)

lemma works_on_pr_event:
  "PR_NUMBER ev = None \<Longrightarrow> works_on ev (pr_event (pr_by a b)) w 7 (pr_by a b)"
  by (simp add: works_on_def prNumber_of_def pr_seen_def pr_event_def pr_by_def)

lemma pr_seen_pr_event: "pr_seen ev (pr_event pr) w = Some pr"
  by (simp add: pr_seen_def pr_event_def)

lemma bot_author_samples:
  "bot_author (pr_by dependabot b)" "\<not> bot_author (pr_by alice b)"
  by (simp_all add: bot_author_def authorType_def authorLogin_def pr_by_def dependabot_def
      alice_def endsWith_def suffix_to_prefix str_def)

lemmas rx_eval = regex_test_def linked_issue_regex_def unassign_regex_def str_def Lit_def Chr_def
  Opt_def Plus_def ci_def upper_ascii_def is_space_def is_digit_def is_word_def word_before_def
  word_after_def

lemma ev_fetch_pr_event: "ev_fetch (pr_event pr) r = []"
  by (simp add: ev_fetch_def pr_event_def)

lemma notifier_bot_world:
  assumes "pr_seen ev c w = Some pr" and "bot_author pr"
  shows "world (snd (notifier ev c w)) = w"
proof (cases rule: notifier_world [of ev c w])
  case same
  then show ?thesis .
next
  case (post n pr')
  with assms show ?thesis by (auto dest: works_on_unique)
qed

lemma notifier_dry_world:
  assumes "isDryRun ev"
  shows "world (snd (notifier ev c w)) = w"
  using assms by (cases rule: notifier_world [of ev c w]) simp_all

lemma requests_by_issue5:
  "requests_by (comment_event (str ''open'') as alice (str ''/unassign'')) (issue5 as) 5 (str ''alice'')"
  by (simp add: requests_by_def isValidUnassignContext_def commentRequestsUnassign_def
      commenter_of_def comment_event_def alice_def issue5_def rx_eval)

lemma alice_assigned: "isCurrentAssignee (issue5 [alice]) (str ''alice'')"
  by (simp add: isCurrentAssignee_def issue5_def alice_def)

lemma alice_not_assigned: "\<not> isCurrentAssignee (issue5 []) (str ''alice'')"
  by (simp add: isCurrentAssignee_def issue5_def)

lemma unassign_dot_not_recognised: "\<not> commentRequestsUnassign (Some (str ''/unassign.''))"
  by (simp add: commentRequestsUnassign_def rx_eval)

lemma requests_by_bob:
  "requests_by (comment_event (str ''open'') as bob (str ''please /unassign me'')) (issue5 as) 5 (str ''bob'')"
  by (simp add: requests_by_def isValidUnassignContext_def commentRequestsUnassign_def
      commenter_of_def comment_event_def bob_def issue5_def rx_eval)

lemma bob_assigned: "isCurrentAssignee (issue5 [bob]) (str ''bob'')"
  by (simp add: isCurrentAssignee_def issue5_def bob_def)

lemma requests_by_valid:
  assumes "requests_by c i n u"
  shows "isValidUnassignContext (payload_issue (payload c)) (payload_comment (payload c))"
    and "commentRequestsUnassign (Option.bind (payload_comment (payload c)) comment_body)"
  using assms unfolding requests_by_def by blast+

section \<open>The claims\<close>

text \<open>
  Claim C1, as amended. Take a pull request whose author is not a bot and whose body has
  no closing keyword, a run outside dry run that determines the number and the data of
  the pull request, a thread without a marker comment and with fewer than 30 comments,
  and no failure of the two requests. Then the first invocation appends the reminder to
  the thread, and whatever invocations follow, with whatever environment and payload,
  the thread stays the old thread followed by that one reminder: it holds exactly one
  comment with the marker. (For a thread of 30 comments or more nothing is stated here;
  see \<open>notifier_repeats_beyond_first_page\<close>.)
\<close>

theorem notifier_reminds_once:
  assumes "works_on ev c w n pr" and "\<not> bot_author pr" and "\<not> isDryRun ev"
    and "\<not> regex_test linked_issue_regex (body_of pr)"
    and "\<not> list_ex (has_marker LINKBOT_MARKER) (comments w (ref_of c n))"
    and "length (comments w (ref_of c n)) < default_per_page"
    and "fault w (List_comments (ref_of c n)) = None"
    and "fault w (Create_comment (ref_of c n) (reminder_of (ref_of c n) pr)) = None"
  shows "comments (notifier_runs ((ev, c) # later) w) (ref_of c n) =
           comments w (ref_of c n)
           @ [\<lparr>comment_body = Some (reminder_of (ref_of c n) pr), comment_user = Some (actor w)\<rparr>]
         \<and> length (filter (has_marker LINKBOT_MARKER)
                     (comments (notifier_runs ((ev, c) # later) w) (ref_of c n))) = 1"
proof -
  let ?r = "ref_of c n"
  let ?w1 = "add_comment ?r (reminder_of ?r pr) w"
  have um: "\<not> marked w ?r"
    using assms(5) by (rule unmarked_thread)
  have first: "world (snd (notifier ev c w)) = ?w1"
    using assms(1-4,7,8) um by (simp add: notifier_posts)
  have "marked ?w1 ?r"
    using assms(6) by (rule marked_after_reminder)
  then have "comments (notifier_runs later ?w1) ?r = comments ?w1 ?r"
    by (rule notifier_runs_keep_marked)
  with first have thread: "comments (notifier_runs ((ev, c) # later) w) ?r =
      comments w ?r @ [\<lparr>comment_body = Some (reminder_of ?r pr), comment_user = Some (actor w)\<rparr>]"
    by (simp add: comments_add_comment)
  have "filter (has_marker LINKBOT_MARKER) (comments w ?r) = []"
    using assms(5) by (simp add: list_ex_iff filter_empty_conv)
  with thread show ?thesis
    by (simp add: has_marker_reminder)
qed

text \<open>The theorem at pull request 7 by alice with the body \<^verbatim>\<open>Add retries\<close>, run three
  times.\<close>

theorem notifier_reminds_once_witness:
  "works_on plain_env (pr_event (pr_by alice (Some (str ''Add retries'')))) quiet 7
     (pr_by alice (Some (str ''Add retries'')))
   \<and> \<not> bot_author (pr_by alice (Some (str ''Add retries'')))
   \<and> \<not> isDryRun plain_env
   \<and> \<not> regex_test linked_issue_regex (body_of (pr_by alice (Some (str ''Add retries''))))
   \<and> length (comments quiet (repo_ref 7)) < default_per_page
   \<and> comments
        (notifier_runs
           [(plain_env, pr_event (pr_by alice (Some (str ''Add retries'')))),
            (plain_env, pr_event (pr_by alice (Some (str ''Add retries'')))),
            (dry_env, pr_event (pr_by bob None))] quiet) (repo_ref 7) =
       [\<lparr>comment_body = Some (reminder_of (repo_ref 7) (pr_by alice (Some (str ''Add retries'')))),
         comment_user = Some actions_bot\<rparr>]
   \<and> length (filter (has_marker LINKBOT_MARKER)
        (comments
          (notifier_runs
             [(plain_env, pr_event (pr_by alice (Some (str ''Add retries'')))),
              (plain_env, pr_event (pr_by alice (Some (str ''Add retries'')))),
              (dry_env, pr_event (pr_by bob None))] quiet) (repo_ref 7))) = 1"
proof -
  let ?pr = "pr_by alice (Some (str ''Add retries''))"
  have wo: "works_on plain_env (pr_event ?pr) quiet 7 ?pr"
    by (simp add: works_on_pr_event plain_env_def)
  have nb: "\<not> bot_author ?pr"
    by (simp add: bot_author_samples)
  have nd: "\<not> isDryRun plain_env"
    by (simp add: isDryRun_def plain_env_def)
  have nl: "\<not> regex_test linked_issue_regex (body_of ?pr)"
    by (simp add: body_of_def pr_by_def rx_eval)
  have q: "comments quiet (repo_ref 7) = []" "actor quiet = actions_bot" "fault quiet a = None" for a
    by (simp_all add: quiet_def)
  show ?thesis
    using notifier_reminds_once [OF wo nb nd nl, of "[(plain_env, pr_event ?pr), (dry_env, pr_event (pr_by bob None))]"]
      wo nb nd nl
    by (simp add: q default_per_page_def has_marker_reminder)
qed

text \<open>
  C1 as stated fails: a pull request by \<^verbatim>\<open>dependabot[bot]\<close> whose body has no closing
  keyword has no reminder after two runs, and neither has a pull request by alice after
  two dry runs.
\<close>

theorem no_reminder_for_bot_or_dry_run:
  "\<not> regex_test linked_issue_regex (body_of (pr_by dependabot (Some (str ''Bump urllib3''))))
   \<and> comments
        (notifier_runs
           [(plain_env, pr_event (pr_by dependabot (Some (str ''Bump urllib3'')))),
            (plain_env, pr_event (pr_by dependabot (Some (str ''Bump urllib3''))))] quiet)
        (repo_ref 7) = []
   \<and> \<not> regex_test linked_issue_regex (body_of (pr_by alice (Some (str ''Add retries''))))
   \<and> comments
        (notifier_runs
           [(dry_env, pr_event (pr_by alice (Some (str ''Add retries'')))),
            (dry_env, pr_event (pr_by alice (Some (str ''Add retries''))))] quiet)
        (repo_ref 7) = []"
proof -
  have "world (snd (notifier plain_env (pr_event (pr_by dependabot b)) quiet)) = quiet" for b
    by (rule notifier_bot_world [OF pr_seen_pr_event]) (rule bot_author_samples)
  moreover have "world (snd (notifier dry_env c quiet)) = quiet" for c
    by (rule notifier_dry_world) (simp add: isDryRun_def dry_env_def)
  moreover have "comments quiet (repo_ref 7) = []"
    by (simp add: quiet_def)
  moreover have "\<not> regex_test linked_issue_regex (body_of (pr_by dependabot (Some (str ''Bump urllib3''))))"
    by (simp add: body_of_def pr_by_def rx_eval)
  moreover have "\<not> regex_test linked_issue_regex (body_of (pr_by alice (Some (str ''Add retries''))))"
    by (simp add: body_of_def pr_by_def rx_eval)
  ultimately show ?thesis by simp
qed




text \<open>
  Claim C3, as amended. The handler never asks the API for the assignees: it reads them
  from the payload of the event, and its result and its trace do not depend on the
  assignees the API has. The comment history it reads from the API at run time, and only
  when it needs it: for a valid request by a commenter who is among the assignees of the
  payload the first request is the paginated listing of the thread, and the handler
  mutates exactly if that listing does not fail and no comment of the thread, as the API
  has it then, carries the marker of the commenter. Every other invocation (the context
  is not valid, the comment does not carry the command, or the commenter is not among the
  assignees of the payload) makes no request at all.
\<close>

theorem unassign_history_from_api_assignees_from_payload:
  "fst (unassign c (w\<lparr>assignees := A\<rparr>)) = fst (unassign c w)
   \<and> trace (snd (unassign c (w\<lparr>assignees := A\<rparr>))) = trace (snd (unassign c w))
   \<and> (requests_by c i n u \<longrightarrow>
        (list_ex mutating (calls (trace (snd (unassign c w)))) \<longleftrightarrow>
           isCurrentAssignee i u
           \<and> fault w (Paginate_list_comments (ref_of c n) 100) = None
           \<and> \<not> unassigned_before w (ref_of c n) u)
        \<and> (isCurrentAssignee i u \<longrightarrow>
             take 1 (calls (trace (snd (unassign c w)))) = [Paginate_list_comments (ref_of c n) 100])
        \<and> (\<not> isCurrentAssignee i u \<longrightarrow> calls (trace (snd (unassign c w))) = []))
   \<and> (\<not> isValidUnassignContext (payload_issue (payload c)) (payload_comment (payload c))
        \<or> \<not> commentRequestsUnassign (Option.bind (payload_comment (payload c)) comment_body)
       \<longrightarrow> calls (trace (snd (unassign c w))) = [])"
proof (cases rule: unassign_cases [where c = c and w = w])
  case invalid
  then show ?thesis by (simp add: unassign_invalid requests_by_def)
next
  case no_request
  then show ?thesis by (simp add: unassign_no_request requests_by_def)
next
  case (not_assignee i' n' u')
  then show ?thesis by (auto simp: unassign_not_assignee dest: requests_by_unique)
next
  case (history_fault i' n' u' e)
  note requests_by_valid [OF history_fault(1)]
  with history_fault show ?thesis by (auto simp: unassign_history_fault dest: requests_by_unique)
next
  case (repeated i' n' u')
  note requests_by_valid [OF repeated(1)]
  with repeated show ?thesis by (auto simp: unassign_repeat dest: requests_by_unique)
next
  case (remove_fault i' n' u' e)
  note requests_by_valid [OF remove_fault(1)]
  with remove_fault show ?thesis by (auto simp: unassign_remove_fault dest: requests_by_unique)
next
  case (comment_fault i' n' u' e)
  note requests_by_valid [OF comment_fault(1)]
  with comment_fault show ?thesis by (auto simp: unassign_comment_fault dest: requests_by_unique)
next
  case (performed i' n' u')
  note requests_by_valid [OF performed(1)]
  with performed show ?thesis by (auto simp: unassign_done dest: requests_by_unique)
qed

text \<open>The theorem at issue 5: alice as the assignee of the payload, alice not among the
  assignees of the payload, and a closed issue.\<close>

theorem unassign_history_from_api_assignees_from_payload_witness:
  "requests_by (comment_event (str ''open'') [alice] alice (str ''/unassign'')) (issue5 [alice]) 5 (str ''alice'')
   \<and> isCurrentAssignee (issue5 [alice]) (str ''alice'')
   \<and> fst (unassign (comment_event (str ''open'') [alice] alice (str ''/unassign''))
             (quiet\<lparr>assignees := (\<lambda>r. [str ''carol''])\<rparr>))
       = fst (unassign (comment_event (str ''open'') [alice] alice (str ''/unassign'')) quiet)
   \<and> trace (snd (unassign (comment_event (str ''open'') [alice] alice (str ''/unassign''))
                    (quiet\<lparr>assignees := (\<lambda>r. [str ''carol''])\<rparr>)))
       = trace (snd (unassign (comment_event (str ''open'') [alice] alice (str ''/unassign'')) quiet))
   \<and> list_ex mutating
        (calls (trace (snd (unassign (comment_event (str ''open'') [alice] alice (str ''/unassign'')) quiet))))
   \<and> take 1 (calls (trace (snd (unassign (comment_event (str ''open'') [alice] alice (str ''/unassign''))
                                    quiet))))
       = [Paginate_list_comments (repo_ref 5) 100]
   \<and> requests_by (comment_event (str ''open'') [] alice (str ''/unassign'')) (issue5 []) 5 (str ''alice'')
   \<and> \<not> isCurrentAssignee (issue5 []) (str ''alice'')
   \<and> calls (trace (snd (unassign (comment_event (str ''open'') [] alice (str ''/unassign'')) quiet))) = []
   \<and> \<not> isValidUnassignContext
         (payload_issue (payload (comment_event (str ''closed'') [alice] alice (str ''/unassign''))))
         (payload_comment (payload (comment_event (str ''closed'') [alice] alice (str ''/unassign''))))
   \<and> calls (trace (snd (unassign (comment_event (str ''closed'') [alice] alice (str ''/unassign'')) quiet)))
       = []"
proof -
  have q: "fault quiet a = None" "\<not> unassigned_before quiet r u" for a r u
    by (simp_all add: quiet_def unassigned_before_def)
  have closed: "\<not> isValidUnassignContext
         (payload_issue (payload (comment_event (str ''closed'') [alice] alice (str ''/unassign''))))
         (payload_comment (payload (comment_event (str ''closed'') [alice] alice (str ''/unassign''))))"
    by (simp add: isValidUnassignContext_def comment_event_def alice_def str_def)
  from unassign_history_from_api_assignees_from_payload [where c = "comment_event (str ''open'') [alice] alice (str ''/unassign'')"
      and w = quiet and A = "\<lambda>r. [str ''carol'']" and i = "issue5 [alice]" and n = 5
      and u = "str ''alice''"]
    requests_by_issue5 [of "[alice]"] alice_assigned
  have a: "fst (unassign (comment_event (str ''open'') [alice] alice (str ''/unassign''))
             (quiet\<lparr>assignees := (\<lambda>r. [str ''carol''])\<rparr>))
       = fst (unassign (comment_event (str ''open'') [alice] alice (str ''/unassign'')) quiet)"
    "trace (snd (unassign (comment_event (str ''open'') [alice] alice (str ''/unassign''))
                    (quiet\<lparr>assignees := (\<lambda>r. [str ''carol''])\<rparr>)))
       = trace (snd (unassign (comment_event (str ''open'') [alice] alice (str ''/unassign'')) quiet))"
    "list_ex mutating
        (calls (trace (snd (unassign (comment_event (str ''open'') [alice] alice (str ''/unassign'')) quiet))))"
    "take 1 (calls (trace (snd (unassign (comment_event (str ''open'') [alice] alice (str ''/unassign''))
                                    quiet))))
       = [Paginate_list_comments (repo_ref 5) 100]"
    by (simp_all add: q)
  from unassign_history_from_api_assignees_from_payload [where c = "comment_event (str ''open'') [] alice (str ''/unassign'')"
      and w = quiet and i = "issue5 []" and n = 5 and u = "str ''alice''"]
    requests_by_issue5 [of "[]"] alice_not_assigned
  have b: "calls (trace (snd (unassign (comment_event (str ''open'') [] alice (str ''/unassign'')) quiet))) = []"
    by simp
  from unassign_history_from_api_assignees_from_payload [where c = "comment_event (str ''closed'') [alice] alice (str ''/unassign'')" and w = quiet]
    closed
  have c: "calls (trace (snd (unassign (comment_event (str ''closed'') [alice] alice (str ''/unassign'')) quiet)))
       = []"
    by simp
  from a b c closed requests_by_issue5 [of "[alice]"] requests_by_issue5 [of "[]"]
    alice_assigned alice_not_assigned
  show ?thesis by simp
qed

text \<open>
  C3 as stated fails: when the API has alice as assignee and the payload has no
  assignees, the handler makes no request at all; when the API has no assignee and the
  payload has alice, the handler removes her.
\<close>

theorem unassign_trusts_payload_assignees:
  "assignees (assigned [str ''alice'']) (repo_ref 5) = [str ''alice'']
   \<and> calls (trace (snd (unassign (comment_event (str ''open'') [] alice (str ''/unassign''))
                            (assigned [str ''alice''])))) = []
   \<and> assignees quiet (repo_ref 5) = []
   \<and> calls (trace (snd (unassign (comment_event (str ''open'') [alice] alice (str ''/unassign'')) quiet)))
       = [Paginate_list_comments (repo_ref 5) 100,
          Remove_assignees (repo_ref 5) [str ''alice''],
          Create_comment (repo_ref 5) (confirmation_body (str ''alice''))]"
proof -
  have a: "assignees (assigned [str ''alice'']) (repo_ref 5) = [str ''alice'']"
      "assignees quiet (repo_ref 5) = []"
    by (simp_all add: assigned_def quiet_def)
  have q: "fault quiet a = None" "\<not> unassigned_before quiet r u" for a r u
    by (simp_all add: quiet_def unassigned_before_def)
  have stale: "calls (trace (snd (unassign (comment_event (str ''open'') [] alice (str ''/unassign''))
                            (assigned [str ''alice''])))) = []"
    by (simp add: unassign_not_assignee [OF requests_by_issue5 alice_not_assigned])
  have "calls (trace (snd (unassign (comment_event (str ''open'') [alice] alice (str ''/unassign'')) quiet)))
       = [Paginate_list_comments (repo_ref 5) 100,
          Remove_assignees (repo_ref 5) [str ''alice''],
          Create_comment (repo_ref 5) (confirmation_body (str ''alice''))]"
    by (simp add: unassign_done [OF requests_by_issue5 alice_assigned] q)
  with a stale show ?thesis by simp
qed

text \<open>
  Claim C4, as amended. If the body of the pull request matches the pattern, in
  particular if \<^verbatim>\<open>Fixes #12\<close> occurs in it at the start or after a code unit that is
  not a word character, the notifier performs no API mutation.
\<close>

theorem notifier_silent_when_linked:
  assumes "pr_seen ev c w = Some pr"
    and "regex_test linked_issue_regex (body_of pr)
         \<or> (body_of pr = pre @ str ''Fixes #12'' @ post \<and> (pre = [] \<or> \<not> is_word (last pre)))"
  shows "regex_test linked_issue_regex (body_of pr) \<and> no_mutation w (notifier ev c w)"
proof -
  have m: "regex_test linked_issue_regex (body_of pr)"
    using assms(2) fixes12_anywhere [of pre post] by auto
  have "no_mutation w (notifier ev c w)"
  proof (cases rule: notifier_cases [of ev c w])
    case (dry_run n' pr')
    with assms(1) m show ?thesis by (auto dest: works_on_unique)
  next
    case (create_fault n' pr' e)
    with assms(1) m show ?thesis by (auto dest: works_on_unique)
  next
    case (posted n' pr')
    with assms(1) m show ?thesis by (auto dest: works_on_unique)
  qed (simp_all add: no_mutation_def)
  with m show ?thesis by simp
qed

text \<open>The theorem at the body \<^verbatim>\<open>This Fixes #12 for good\<close>.\<close>

theorem notifier_silent_when_linked_witness:
  "pr_seen plain_env (pr_event (pr_by alice (Some (str ''This Fixes #12 for good'')))) quiet
     = Some (pr_by alice (Some (str ''This Fixes #12 for good'')))
   \<and> body_of (pr_by alice (Some (str ''This Fixes #12 for good'')))
       = str ''This '' @ str ''Fixes #12'' @ str '' for good''
   \<and> \<not> is_word (last (str ''This ''))
   \<and> regex_test linked_issue_regex (body_of (pr_by alice (Some (str ''This Fixes #12 for good''))))
   \<and> no_mutation quiet
        (notifier plain_env (pr_event (pr_by alice (Some (str ''This Fixes #12 for good'')))) quiet)"
proof -
  let ?pr = "pr_by alice (Some (str ''This Fixes #12 for good''))"
  have b: "body_of ?pr = str ''This '' @ str ''Fixes #12'' @ str '' for good''"
    by (simp add: body_of_def pr_by_def str_def)
  have w: "\<not> is_word (last (str ''This ''))"
    by (simp add: str_def is_word_def is_digit_def)
  from b w have "regex_test linked_issue_regex (body_of ?pr)
         \<or> (body_of ?pr = str ''This '' @ str ''Fixes #12'' @ str '' for good''
              \<and> (str ''This '' = [] \<or> \<not> is_word (last (str ''This ''))))"
    by simp
  from notifier_silent_when_linked [OF pr_seen_pr_event this] b w show ?thesis
    by (simp add: pr_seen_pr_event)
qed

text \<open>
  C4 as stated fails: the body \<^verbatim>\<open>bugFixes #12\<close> contains \<^verbatim>\<open>Fixes #12\<close>, the pattern
  asks for a word boundary before the keyword, and the notifier posts the reminder.
\<close>

theorem notifier_reminds_despite_fixes12:
  "str_includes (str ''bugFixes #12'') (str ''Fixes #12'')
   \<and> calls (trace (snd (notifier plain_env (pr_event (pr_by alice (Some (str ''bugFixes #12'')))) quiet)))
       = [List_comments (repo_ref 7),
          Create_comment (repo_ref 7)
            (reminder_of (repo_ref 7) (pr_by alice (Some (str ''bugFixes #12''))))]"
proof -
  let ?pr = "pr_by alice (Some (str ''bugFixes #12''))"
  have inc: "str_includes (str ''bugFixes #12'') (str ''Fixes #12'')"
    by (simp add: str_def)
  have wo: "works_on plain_env (pr_event ?pr) quiet 7 ?pr"
    by (simp add: works_on_pr_event plain_env_def)
  have nl: "\<not> regex_test linked_issue_regex (body_of ?pr)"
    by (simp add: body_of_def pr_by_def rx_eval)
  have "notifier plain_env (pr_event ?pr) quiet =
      (Inr (), \<lparr>world = add_comment (repo_ref 7) (reminder_of (repo_ref 7) ?pr) quiet,
                 trace = ev_processing 7 (isDryRun plain_env) # ev_fetch (pr_event ?pr) (repo_ref 7)
                         @ [Call (List_comments (repo_ref 7)),
                            Call (Create_comment (repo_ref 7) (reminder_of (repo_ref 7) ?pr)),
                            ev_posted]\<rparr>)"
    using notifier_posts [OF wo _ _ _ nl]
    by (simp add: bot_author_samples quiet_def marked_def isDryRun_def plain_env_def)
  with inc show ?thesis
    by (simp add: calls_ev_fetch pr_event_def)
qed

text \<open>
  Claim C5. If the issue or its number is missing, the issue is a pull request or is not
  open, the comment has no body, the commenter has no login or is of type \<^verbatim>\<open>Bot\<close>,
  then the handler returns normally, makes no request and leaves the API as it is.
\<close>

theorem unassign_invalid_context_silent:
  assumes "\<not> truthy_num (issueNumber_of c)
         \<or> (case payload_issue (payload c) of None \<Rightarrow> True
             | Some i \<Rightarrow> issue_pull_request i \<or> issue_state i \<noteq> Some (str ''open''))
         \<or> \<not> truthy_str (Option.bind (payload_comment (payload c)) comment_body)
         \<or> \<not> truthy_str (commenter_of c)
         \<or> commenterType_of c = Some (str ''Bot'')"
  shows "fst (unassign c w) = Inr () \<and> no_mutation w (unassign c w)
         \<and> calls (trace (snd (unassign c w))) = []"
proof -
  have "\<not> isValidUnassignContext (payload_issue (payload c)) (payload_comment (payload c))"
    using assms
    by (auto simp: isValidUnassignContext_def issueNumber_of_def commenter_of_def
        commenterType_of_def split: option.splits)
  then show ?thesis
    by (simp add: unassign_invalid no_mutation_def)
qed

text \<open>The theorem at a closed issue, its assignee commenting \<^verbatim>\<open>/unassign\<close>.\<close>

theorem unassign_invalid_context_silent_witness:
  "(case payload_issue (payload (comment_event (str ''closed'') [alice] alice (str ''/unassign''))) of
      None \<Rightarrow> True
    | Some i \<Rightarrow> issue_pull_request i \<or> issue_state i \<noteq> Some (str ''open''))
   \<and> fst (unassign (comment_event (str ''closed'') [alice] alice (str ''/unassign'')) quiet) = Inr ()
   \<and> no_mutation quiet (unassign (comment_event (str ''closed'') [alice] alice (str ''/unassign'')) quiet)
   \<and> calls (trace (snd (unassign (comment_event (str ''closed'') [alice] alice (str ''/unassign'')) quiet)))
       = []"
proof -
  have "case payload_issue (payload (comment_event (str ''closed'') [alice] alice (str ''/unassign''))) of
      None \<Rightarrow> True
    | Some i \<Rightarrow> issue_pull_request i \<or> issue_state i \<noteq> Some (str ''open'')"
    by (simp add: comment_event_def str_def)
  with unassign_invalid_context_silent [of "comment_event (str ''closed'') [alice] alice (str ''/unassign'')" quiet]
  show ?thesis by simp
qed

text \<open>
  Claim C6, as amended. If the commenter is not among the assignees that the payload of
  the event lists for the issue, the handler returns normally, makes no request and
  leaves the API as it is, whatever the body of the comment. In particular a body that
  contains \<^verbatim>\<open>/unassign\<close>, in any case of the letters, between the start or a white space
  and a white space or the end is recognised as the command (the pattern delimits the
  token by white space, not by word boundaries: \<open>unassign_dot_not_recognised\<close>), and the
  handler then leaves at the assignee check.
\<close>

theorem unassign_non_assignee_no_mutation:
  assumes "case (payload_issue (payload c), commenter_of c) of
             (Some i, Some u) \<Rightarrow> \<not> isCurrentAssignee i u
           | _ \<Rightarrow> True"
  shows "fst (unassign c w) = Inr () \<and> no_mutation w (unassign c w)
         \<and> calls (trace (snd (unassign c w))) = []
         \<and> (Option.bind (payload_comment (payload c)) comment_body = Some (pre @ tok @ post)
              \<and> map upper_ascii tok = map upper_ascii (str ''/unassign'')
              \<and> (pre = [] \<or> is_space (last pre)) \<and> (post = [] \<or> is_space (hd post))
             \<longrightarrow> commentRequestsUnassign (Option.bind (payload_comment (payload c)) comment_body))"
proof -
  have rq: "commentRequestsUnassign (Option.bind (payload_comment (payload c)) comment_body)"
    if "Option.bind (payload_comment (payload c)) comment_body = Some (pre @ tok @ post)"
      "map upper_ascii tok = map upper_ascii (str ''/unassign'')"
      "pre = [] \<or> is_space (last pre)" "post = [] \<or> is_space (hd post)"
    unfolding that(1) using that(2-4)
    by (simp add: commentRequestsUnassign_def unassign_token)
  have na: "\<not> isCurrentAssignee i u" if "requests_by c i n u" for i n u
    using assms that by (simp add: requests_by_def)
  have "fst (unassign c w) = Inr () \<and> no_mutation w (unassign c w)
         \<and> calls (trace (snd (unassign c w))) = []"
  proof (cases rule: unassign_cases [where c = c and w = w])
    case invalid
    then show ?thesis by (simp add: unassign_invalid no_mutation_def)
  next
    case no_request
    then show ?thesis by (simp add: unassign_no_request no_mutation_def)
  next
    case (not_assignee i n u)
    then show ?thesis by (simp add: unassign_not_assignee no_mutation_def)
  next
    case (history_fault i n u e)
    with na show ?thesis by blast
  next
    case (repeated i n u)
    with na show ?thesis by blast
  next
    case (remove_fault i n u e)
    with na show ?thesis by blast
  next
    case (comment_fault i n u e)
    with na show ?thesis by blast
  next
    case (performed i n u)
    with na show ?thesis by blast
  qed
  with rq show ?thesis by blast
qed

text \<open>The theorem at the comments \<^verbatim>\<open>please /unassign me\<close> and \<^verbatim>\<open>/unassign.\<close> of bob on an
  issue assigned to alice.\<close>

theorem unassign_non_assignee_no_mutation_witness:
  "\<not> isCurrentAssignee (issue5 [alice]) (str ''bob'')
   \<and> Option.bind (payload_comment (payload (comment_event (str ''open'') [alice] bob (str ''please /unassign me''))))
       comment_body = Some (str ''please '' @ str ''/unassign'' @ str '' me'')
   \<and> is_space (last (str ''please '')) \<and> is_space (hd (str '' me''))
   \<and> commentRequestsUnassign (Some (str ''please /unassign me''))
   \<and> fst (unassign (comment_event (str ''open'') [alice] bob (str ''please /unassign me'')) quiet) = Inr ()
   \<and> no_mutation quiet
        (unassign (comment_event (str ''open'') [alice] bob (str ''please /unassign me'')) quiet)
   \<and> calls (trace (snd (unassign (comment_event (str ''open'') [alice] bob (str ''please /unassign me''))
                            quiet))) = []
   \<and> fst (unassign (comment_event (str ''open'') [alice] bob (str ''/unassign.'')) quiet) = Inr ()
   \<and> no_mutation quiet (unassign (comment_event (str ''open'') [alice] bob (str ''/unassign.'')) quiet)"
proof -
  let ?c = "comment_event (str ''open'') [alice] bob (str ''please /unassign me'')"
  let ?d = "comment_event (str ''open'') [alice] bob (str ''/unassign.'')"
  have b: "Option.bind (payload_comment (payload ?c)) comment_body
             = Some (str ''please '' @ str ''/unassign'' @ str '' me'')"
    by (simp add: comment_event_def str_def)
  have s: "str ''please '' = [] \<or> is_space (last (str ''please ''))"
      "str '' me'' = [] \<or> is_space (hd (str '' me''))"
    by (simp_all add: str_def is_space_def)
  have na: "\<not> isCurrentAssignee (issue5 [alice]) (str ''bob'')"
    by (simp add: isCurrentAssignee_def issue5_def alice_def str_def)
  then have n: "case (payload_issue (payload (comment_event (str ''open'') [alice] bob body)),
                      commenter_of (comment_event (str ''open'') [alice] bob body)) of
           (Some i, Some u) \<Rightarrow> \<not> isCurrentAssignee i u
         | _ \<Rightarrow> True" for body
    by (simp add: comment_event_def commenter_of_def bob_def issue5_def)
  have full: "str ''please '' @ str ''/unassign'' @ str '' me'' = str ''please /unassign me''"
    by (simp add: str_def)
  from unassign_non_assignee_no_mutation [OF n, of "str ''please /unassign me''" quiet "str ''please ''" "str ''/unassign''" "str '' me''"]
    b s
  have first: "commentRequestsUnassign (Some (str ''please /unassign me''))"
    "fst (unassign ?c quiet) = Inr ()" "no_mutation quiet (unassign ?c quiet)"
    "calls (trace (snd (unassign ?c quiet))) = []"
    by (simp_all add: full)
  from unassign_non_assignee_no_mutation [OF n, of "str ''/unassign.''" quiet]
  have second: "fst (unassign ?d quiet) = Inr ()" "no_mutation quiet (unassign ?d quiet)"
    by simp_all
  from first second b s na show ?thesis
    by (simp add: str_def is_space_def)
qed

text \<open>
  C6 as stated fails when the current assignees are those the API has: the API has
  alice as the only assignee of the issue, the payload lists bob, bob comments
  \<^verbatim>\<open>please /unassign me\<close>, and the handler removes bob and posts the confirmation.
\<close>

theorem unassign_mutates_for_stale_payload_assignee:
  "assignees (assigned [str ''alice'']) (repo_ref 5) = [str ''alice'']
   \<and> commentRequestsUnassign (Some (str ''please /unassign me''))
   \<and> calls (trace (snd (unassign (comment_event (str ''open'') [bob] bob (str ''please /unassign me''))
                            (assigned [str ''alice'']))))
       = [Paginate_list_comments (repo_ref 5) 100,
          Remove_assignees (repo_ref 5) [str ''bob''],
          Create_comment (repo_ref 5) (confirmation_body (str ''bob''))]"
proof -
  have a: "assignees (assigned [str ''alice'']) (repo_ref 5) = [str ''alice'']"
    by (simp add: assigned_def quiet_def)
  have rq: "commentRequestsUnassign (Some (str ''please /unassign me''))"
    by (simp add: commentRequestsUnassign_def rx_eval)
  have q: "fault (assigned us) x = None" "\<not> unassigned_before (assigned us) r u" for us x r u
    by (simp_all add: assigned_def quiet_def unassigned_before_def)
  have "calls (trace (snd (unassign (comment_event (str ''open'') [bob] bob (str ''please /unassign me''))
                            (assigned [str ''alice'']))))
       = [Paginate_list_comments (repo_ref 5) 100,
          Remove_assignees (repo_ref 5) [str ''bob''],
          Create_comment (repo_ref 5) (confirmation_body (str ''bob''))]"
    by (simp add: unassign_done [OF requests_by_bob bob_assigned] q)
  with a rq show ?thesis by simp
qed

text \<open>
  Claim C7. If the author of the pull request the run works on is a bot (the type is
  \<^verbatim>\<open>Bot\<close> or the login ends with \<^verbatim>\<open>[bot]\<close>), the notifier performs no API mutation,
  whatever the body; and it returns normally once the number and the data of the pull
  request are determined.
\<close>

theorem notifier_skips_bot_author:
  assumes "pr_seen ev c w = Some pr" and "bot_author pr"
  shows "no_mutation w (notifier ev c w)
         \<and> (works_on ev c w n pr \<longrightarrow> fst (notifier ev c w) = Inr ())"
proof (cases rule: notifier_cases [of ev c w])
  case undetermined
  then show ?thesis by (auto simp: no_mutation_def works_on_def)
next
  case (fetch_fault n' e)
  then show ?thesis by (auto simp: no_mutation_def works_on_def)
next
  case (bot n' pr')
  then show ?thesis by (simp add: no_mutation_def)
next
  case (list_fault n' pr' e)
  with assms show ?thesis by (auto dest: works_on_unique)
next
  case (already n' pr')
  with assms show ?thesis by (auto dest: works_on_unique)
next
  case (linked n' pr')
  with assms show ?thesis by (auto dest: works_on_unique)
next
  case (dry_run n' pr')
  with assms show ?thesis by (auto dest: works_on_unique)
next
  case (create_fault n' pr' e)
  with assms show ?thesis by (auto dest: works_on_unique)
next
  case (posted n' pr')
  with assms show ?thesis by (auto dest: works_on_unique)
qed

text \<open>The theorem at a pull request by \<^verbatim>\<open>dependabot[bot]\<close>.\<close>

theorem notifier_skips_bot_author_witness:
  "pr_seen plain_env (pr_event (pr_by dependabot (Some (str ''Bump urllib3 to 2.2'')))) quiet
     = Some (pr_by dependabot (Some (str ''Bump urllib3 to 2.2'')))
   \<and> bot_author (pr_by dependabot (Some (str ''Bump urllib3 to 2.2'')))
   \<and> no_mutation quiet
        (notifier plain_env (pr_event (pr_by dependabot (Some (str ''Bump urllib3 to 2.2'')))) quiet)
   \<and> fst (notifier plain_env (pr_event (pr_by dependabot (Some (str ''Bump urllib3 to 2.2'')))) quiet)
       = Inr ()"
  using notifier_skips_bot_author [of plain_env "pr_event (pr_by dependabot (Some (str ''Bump urllib3 to 2.2'')))" quiet
      "pr_by dependabot (Some (str ''Bump urllib3 to 2.2''))" 7]
  by (simp add: pr_seen_pr_event bot_author_samples works_on_pr_event plain_env_def)

text \<open>
  Claim C8. The notifier throws an error exactly if the number of the pull request
  cannot be determined (then that error) or a request it made failed (then the error of
  that request); when it throws, the last three events are the error, the number of the
  pull request and the repository, logged as errors. The unassign handler throws exactly
  if a request it made failed, and then the last event is the error log with the message,
  the status, the issue number and the commenter. A bot author, a marker found on the
  listed page, an issue that is not open and a commenter who is not an assignee make the
  handlers return normally.
\<close>

theorem handlers_log_and_rethrow:
  "(fst (notifier ev c w) = Inl e \<longleftrightarrow>
      (\<not> truthy_num (prNumber_of ev c) \<and> e = no_pr_number)
      \<or> (\<exists>a \<in> set (calls (trace (snd (notifier ev c w)))). fault w a = Some e))
   \<and> (fst (notifier ev c w) = Inl e \<longrightarrow>
        last_events 3 (trace (snd (notifier ev c w))) = ev_caught e ev c)
   \<and> (works_on ev c w n pr \<and> bot_author pr \<longrightarrow> fst (notifier ev c w) = Inr ())
   \<and> (works_on ev c w n pr \<and> \<not> bot_author pr \<and> fault w (List_comments (ref_of c n)) = None
        \<and> marked w (ref_of c n) \<longrightarrow> fst (notifier ev c w) = Inr ())
   \<and> (fst (unassign c' w') = Inl e' \<longleftrightarrow>
        (\<exists>a \<in> set (calls (trace (snd (unassign c' w')))). fault w' a = Some e'))
   \<and> (fst (unassign c' w') = Inl e' \<longrightarrow>
        last_events 1 (trace (snd (unassign c' w'))) = [ev_unassign_error e' c'])
   \<and> (Option.bind (payload_issue (payload c')) issue_state \<noteq> Some (str ''open'') \<longrightarrow>
        fst (unassign c' w') = Inr ())
   \<and> (requests_by c' i n' u \<and> \<not> isCurrentAssignee i u \<longrightarrow> fst (unassign c' w') = Inr ())"
proof -
  have bot: "fst (notifier ev c w) = Inr ()" if "works_on ev c w n pr" "bot_author pr"
    using that
    by (simp add: notifier_returns notifier_try_works_on check_and_post_bot)
  have already: "fst (notifier ev c w) = Inr ()"
    if "works_on ev c w n pr" "\<not> bot_author pr" "fault w (List_comments (ref_of c n)) = None"
      "marked w (ref_of c n)"
    using that
    by (simp add: notifier_returns notifier_try_works_on check_and_post_marked)
  have closed: "fst (unassign c' w') = Inr ()"
    if "Option.bind (payload_issue (payload c')) issue_state \<noteq> Some (str ''open'')"
  proof -
    from that have "\<not> isValidUnassignContext (payload_issue (payload c')) (payload_comment (payload c'))"
      by (simp add: isValidUnassignContext_def)
    then show ?thesis by (simp add: unassign_invalid)
  qed
  have outsider: "fst (unassign c' w') = Inr ()"
    if "requests_by c' i n' u" "\<not> isCurrentAssignee i u"
    using that by (simp add: unassign_not_assignee)
  show ?thesis
    using notifier_throws_iff [of ev c w e] notifier_error_logged [of ev c w e]
      unassign_throws_iff [of c' w' e'] unassign_error_logged [of c' w' e']
      bot already closed outsider
    by blast
qed

text \<open>The theorem where every request fails with 502, and at the four conditions that
  are no errors.\<close>

theorem handlers_log_and_rethrow_witness:
  "fst (notifier plain_env (pr_event (pr_by alice None)) flaky) = Inl bad_gateway
   \<and> last_events 3 (trace (snd (notifier plain_env (pr_event (pr_by alice None)) flaky)))
       = ev_caught bad_gateway plain_env (pr_event (pr_by alice None))
   \<and> fst (unassign (comment_event (str ''open'') [alice] alice (str ''/unassign'')) flaky) = Inl bad_gateway
   \<and> last_events 1 (trace (snd (unassign (comment_event (str ''open'') [alice] alice (str ''/unassign''))
                                  flaky)))
       = [ev_unassign_error bad_gateway (comment_event (str ''open'') [alice] alice (str ''/unassign''))]
   \<and> bot_author (pr_by dependabot None)
   \<and> fst (notifier plain_env (pr_event (pr_by dependabot None)) quiet) = Inr ()
   \<and> marked (with_comment (reminder_of (repo_ref 5) (pr_by alice None))) (repo_ref 5)
   \<and> fst (notifier \<lparr>DRY_RUN = None, PR_NUMBER = Some 5\<rparr> (pr_event (pr_by alice None))
             (with_comment (reminder_of (repo_ref 5) (pr_by alice None)))) = Inr ()
   \<and> fst (unassign (comment_event (str ''closed'') [alice] alice (str ''/unassign'')) quiet) = Inr ()
   \<and> \<not> isCurrentAssignee (issue5 []) (str ''alice'')
   \<and> fst (unassign (comment_event (str ''open'') [] alice (str ''/unassign'')) quiet) = Inr ()"
proof -
  let ?c = "pr_event (pr_by alice None)"
  let ?u = "comment_event (str ''open'') [alice] alice (str ''/unassign'')"
  let ?ev5 = "\<lparr>DRY_RUN = None, PR_NUMBER = Some 5\<rparr>"
  let ?w5 = "with_comment (reminder_of (repo_ref 5) (pr_by alice None))"
  have fl: "fault flaky a = Some bad_gateway" for a
    by (simp add: flaky_def)
  have wo: "works_on plain_env ?c flaky 7 (pr_by alice None)"
    by (simp add: works_on_pr_event plain_env_def)
  have n1: "fst (notifier plain_env ?c flaky) = Inl bad_gateway"
    by (simp add: notifier_throws notifier_try_works_on [OF wo] check_and_post_list_fault
        bot_author_samples fl)
  have u1: "fst (unassign ?u flaky) = Inl bad_gateway"
    by (simp add: unassign_history_fault [OF requests_by_issue5 alice_assigned] fl)
  have wob: "works_on plain_env (pr_event (pr_by dependabot None)) quiet 7 (pr_by dependabot None)"
    by (simp add: works_on_pr_event plain_env_def)
  have wo5: "works_on ?ev5 ?c ?w5 5 (pr_by alice None)"
    by (simp add: works_on_def prNumber_of_def pr_seen_def pr_event_def)
  have m5: "marked ?w5 (repo_ref 5)"
    by (simp add: marked_def with_comment_def default_per_page_def has_marker_reminder)
  have f5: "fault ?w5 (List_comments (repo_ref 5)) = None"
    by (simp add: with_comment_def quiet_def)
  have closed: "Option.bind (payload_issue (payload (comment_event (str ''closed'') [alice] alice
      (str ''/unassign'')))) issue_state \<noteq> Some (str ''open'')"
    by (simp add: comment_event_def str_def)
  from handlers_log_and_rethrow [where ev = plain_env and c = ?c and w = flaky and e = bad_gateway
      and c' = ?u and w' = flaky and e' = bad_gateway] n1 u1
  have thrown: "last_events 3 (trace (snd (notifier plain_env ?c flaky))) = ev_caught bad_gateway plain_env ?c"
    "last_events 1 (trace (snd (unassign ?u flaky))) = [ev_unassign_error bad_gateway ?u]"
    by simp_all
  from handlers_log_and_rethrow [where ev = plain_env and c = "pr_event (pr_by dependabot None)" and w = quiet and n = 7
      and pr = "pr_by dependabot None"
      and c' = "comment_event (str ''closed'') [alice] alice (str ''/unassign'')" and w' = quiet]
    wob closed
  have r1: "fst (notifier plain_env (pr_event (pr_by dependabot None)) quiet) = Inr ()"
    "fst (unassign (comment_event (str ''closed'') [alice] alice (str ''/unassign'')) quiet) = Inr ()"
    by (simp_all add: bot_author_samples)
  from handlers_log_and_rethrow [where ev = ?ev5 and c = ?c and w = ?w5 and n = 5 and pr = "pr_by alice None"
      and c' = "comment_event (str ''open'') [] alice (str ''/unassign'')" and w' = quiet
      and i = "issue5 []" and n' = 5 and u = "str ''alice''"]
    wo5 m5 f5 requests_by_issue5 [of "[]"] alice_not_assigned
  have r2: "fst (notifier ?ev5 ?c ?w5) = Inr ()"
    "fst (unassign (comment_event (str ''open'') [] alice (str ''/unassign'')) quiet) = Inr ()"
    by (simp_all add: bot_author_samples)
  from n1 u1 thrown r1 r2 m5 alice_not_assigned show ?thesis
    by (simp add: bot_author_samples)
qed

text \<open>
  Claim C9. With \<^verbatim>\<open>DRY_RUN\<close> equal to \<^verbatim>\<open>true\<close> the notifier performs no API mutation;
  and whenever the run with another value of \<^verbatim>\<open>DRY_RUN\<close> requests a comment with the
  body \<open>b\<close>, the dry run logs \<open>b\<close>.
\<close>

theorem notifier_dry_run_no_mutation:
  assumes "DRY_RUN ev = Some (str ''true'')"
  shows "no_mutation w (notifier ev c w)
         \<and> (PR_NUMBER ev' = PR_NUMBER ev
              \<and> Create_comment r b \<in> set (calls (trace (snd (notifier ev' c w))))
             \<longrightarrow> Console_log [Str b] \<in> set (trace (snd (notifier ev c w))))"
proof -
  have d: "isDryRun ev"
    using assms by (simp add: isDryRun_def)
  have quiet: "no_mutation w (notifier ev c w)"
    using d by (cases rule: notifier_cases [of ev c w]) (simp_all add: no_mutation_def)
  have logged: "Console_log [Str b] \<in> set (trace (snd (notifier ev c w)))"
    if env: "PR_NUMBER ev' = PR_NUMBER ev"
      and call: "Create_comment r b \<in> set (calls (trace (snd (notifier ev' c w))))"
  proof -
    have "\<exists>n pr. works_on ev' c w n pr \<and> \<not> bot_author pr
            \<and> fault w (List_comments (ref_of c n)) = None \<and> \<not> marked w (ref_of c n)
            \<and> \<not> regex_test linked_issue_regex (body_of pr) \<and> b = reminder_of (ref_of c n) pr"
      using call
      by (cases rule: notifier_cases [of ev' c w])
         (auto simp: calls_ev_fetch split: option.splits)
    then obtain n pr where wo: "works_on ev' c w n pr" and nb: "\<not> bot_author pr"
      and lf: "fault w (List_comments (ref_of c n)) = None" and um: "\<not> marked w (ref_of c n)"
      and nl: "\<not> regex_test linked_issue_regex (body_of pr)" and b: "b = reminder_of (ref_of c n) pr"
      by blast
    from wo env have "works_on ev c w n pr"
      by (simp add: works_on_env)
    from notifier_dry_run [OF this nb lf um nl d] show ?thesis
      by (simp add: b ev_dry_run_def)
  qed
  from quiet logged show ?thesis by blast
qed

text \<open>The theorem at pull request 7 by alice without a body.\<close>

theorem notifier_dry_run_no_mutation_witness:
  "DRY_RUN dry_env = Some (str ''true'')
   \<and> no_mutation quiet (notifier dry_env (pr_event (pr_by alice None)) quiet)
   \<and> Create_comment (repo_ref 7) (reminder_of (repo_ref 7) (pr_by alice None))
       \<in> set (calls (trace (snd (notifier plain_env (pr_event (pr_by alice None)) quiet))))
   \<and> Console_log [Str (reminder_of (repo_ref 7) (pr_by alice None))]
       \<in> set (trace (snd (notifier dry_env (pr_event (pr_by alice None)) quiet)))"
proof -
  let ?pr = "pr_by alice None"
  have d: "DRY_RUN dry_env = Some (str ''true'')"
    by (simp add: dry_env_def)
  have wo: "works_on plain_env (pr_event ?pr) quiet 7 ?pr"
    by (simp add: works_on_pr_event plain_env_def)
  have nl: "\<not> regex_test linked_issue_regex (body_of ?pr)"
    by (simp add: body_of_def pr_by_def rx_eval)
  have "notifier plain_env (pr_event ?pr) quiet =
      (Inr (), \<lparr>world = add_comment (repo_ref 7) (reminder_of (repo_ref 7) ?pr) quiet,
                 trace = ev_processing 7 (isDryRun plain_env) # ev_fetch (pr_event ?pr) (repo_ref 7)
                         @ [Call (List_comments (repo_ref 7)),
                            Call (Create_comment (repo_ref 7) (reminder_of (repo_ref 7) ?pr)),
                            ev_posted]\<rparr>)"
    using notifier_posts [OF wo _ _ _ nl]
    by (simp add: bot_author_samples quiet_def marked_def isDryRun_def plain_env_def)
  then have call: "Create_comment (repo_ref 7) (reminder_of (repo_ref 7) ?pr)
       \<in> set (calls (trace (snd (notifier plain_env (pr_event ?pr) quiet))))"
    by (simp add: ev_fetch_pr_event)
  have e: "PR_NUMBER plain_env = PR_NUMBER dry_env"
    by (simp add: plain_env_def dry_env_def)
  from notifier_dry_run_no_mutation [OF d, of quiet "pr_event ?pr" plain_env "repo_ref 7" "reminder_of (repo_ref 7) ?pr"]
    d call e
  show ?thesis by simp
qed

text \<open>
  Claim C10. For a pull request without a body, by an author who is not a bot, the body
  is the empty string, which the pattern does not match; outside dry run, with no marker
  comment in the thread and the requests not failing, the notifier returns normally after
  listing the comments and creating the reminder, which is then the last comment of the
  thread.
\<close>

theorem notifier_reminds_bodyless_pr:
  assumes "works_on ev c w n pr" and "pr_body pr = None" and "\<not> bot_author pr"
    and "DRY_RUN ev \<noteq> Some (str ''true'')"
    and "\<not> list_ex (has_marker LINKBOT_MARKER) (comments w (ref_of c n))"
    and "fault w (List_comments (ref_of c n)) = None"
    and "fault w (Create_comment (ref_of c n) (reminder_of (ref_of c n) pr)) = None"
  shows "body_of pr = [] \<and> \<not> regex_test linked_issue_regex (body_of pr)
         \<and> fst (notifier ev c w) = Inr ()
         \<and> calls (trace (snd (notifier ev c w))) =
             calls (ev_fetch c (ref_of c n))
             @ [List_comments (ref_of c n),
                Create_comment (ref_of c n) (reminder_of (ref_of c n) pr)]
         \<and> comments (world (snd (notifier ev c w))) (ref_of c n) =
             comments w (ref_of c n)
             @ [\<lparr>comment_body = Some (reminder_of (ref_of c n) pr), comment_user = Some (actor w)\<rparr>]"
proof -
  have b: "body_of pr = []"
    using assms(2) by (simp add: body_of_def)
  have nm: "\<not> regex_test linked_issue_regex (body_of pr)"
    unfolding b
    by (simp add: regex_test_def linked_issue_regex_def word_before_def word_after_def)
  have um: "\<not> marked w (ref_of c n)"
    using assms(5) by (rule unmarked_thread)
  have nd: "\<not> isDryRun ev"
    using assms(4) by (simp add: isDryRun_def)
  note run = notifier_posts [OF assms(1) assms(3) assms(6) um nm nd assms(7)]
  show ?thesis
    using b nm by (simp add: run comments_add_comment)
qed

text \<open>The theorem at pull request 7 by alice without a body.\<close>

theorem notifier_reminds_bodyless_pr_witness:
  "works_on plain_env (pr_event (pr_by alice None)) quiet 7 (pr_by alice None)
   \<and> pr_body (pr_by alice None) = None
   \<and> \<not> bot_author (pr_by alice None)
   \<and> DRY_RUN plain_env \<noteq> Some (str ''true'')
   \<and> fst (notifier plain_env (pr_event (pr_by alice None)) quiet) = Inr ()
   \<and> calls (trace (snd (notifier plain_env (pr_event (pr_by alice None)) quiet))) =
       [List_comments (repo_ref 7),
        Create_comment (repo_ref 7) (reminder_of (repo_ref 7) (pr_by alice None))]
   \<and> comments (world (snd (notifier plain_env (pr_event (pr_by alice None)) quiet))) (repo_ref 7) =
       [\<lparr>comment_body = Some (reminder_of (repo_ref 7) (pr_by alice None)),
         comment_user = Some actions_bot\<rparr>]"
proof -
  let ?pr = "pr_by alice None"
  have wo: "works_on plain_env (pr_event ?pr) quiet 7 ?pr"
    by (simp add: works_on_pr_event plain_env_def)
  have nobody: "pr_body ?pr = None"
    by (simp add: pr_by_def)
  have nb: "\<not> bot_author ?pr"
    by (simp add: bot_author_samples)
  have nd: "DRY_RUN plain_env \<noteq> Some (str ''true'')"
    by (simp add: plain_env_def)
  have q: "comments quiet (repo_ref 7) = []" "actor quiet = actions_bot" "fault quiet a = None" for a
    by (simp_all add: quiet_def)
  show ?thesis
    using notifier_reminds_bodyless_pr [OF wo nobody nb nd] wo nobody nb nd
    by (simp add: q ev_fetch_pr_event)
qed

end
